theory Spec2Isabelle
  imports Complex_Main "HOL-Library.Sublist" "HOL-Library.AList"
begin

section \<open>Python string primitives used by the graph builder\<close>


definition lower_char :: "char \<Rightarrow> char" where
  "lower_char c =
     (let n = (of_char c :: nat) in if 65 \<le> n \<and> n \<le> 90 then char_of (n + 32) else c)"

definition lower :: "string \<Rightarrow> string" where
  "lower s = map lower_char s"

definition is_space :: "char \<Rightarrow> bool" where
  "is_space c = (let n = (of_char c :: nat) in (9 \<le> n \<and> n \<le> 13) \<or> (28 \<le> n \<and> n \<le> 32))"

definition lstrip :: "string \<Rightarrow> string" where
  "lstrip s = dropWhile is_space s"

definition strip :: "string \<Rightarrow> string" where
  "strip s = rev (dropWhile is_space (rev (dropWhile is_space s)))"

text \<open>\<open>s.rstrip("/")\<close>: every trailing slash is removed, not only one.\<close>

definition rstrip_slash :: "string \<Rightarrow> string" where
  "rstrip_slash s = rev (dropWhile (\<lambda>c. c = CHR ''/'') (rev s))"

text \<open>
  \<open>s.replace(old, "")\<close>: the occurrences of \<open>old\<close> are found left to right without
  overlap and deleted; the result is not scanned again. With an empty \<open>old\<close> and an empty
  replacement Python returns \<open>s\<close>.
\<close>

function remove_all :: "string \<Rightarrow> string \<Rightarrow> string" where
  "remove_all old [] = []"
| "remove_all old (c # cs) =
     (if old \<noteq> [] \<and> prefix old (c # cs)
      then remove_all old (drop (length old) (c # cs))
      else c # remove_all old cs)"
  by pat_completeness auto
termination
  by (relation "measure (\<lambda>(old, s). length s)") (auto simp: neq_Nil_conv)

text \<open>\<open>s.split(",")\<close>: always at least one piece; \<open>"".split(",") == [""]\<close>.\<close>

fun split_on :: "char \<Rightarrow> string \<Rightarrow> string list" where
  "split_on sep [] = [[]]"
| "split_on sep (c # cs) =
     (if c = sep then [] # split_on sep cs
      else (case split_on sep cs of
              [] \<Rightarrow> [[c]]
            | p # ps \<Rightarrow> (c # p) # ps))"

section \<open>Cells and rows of the input table\<close>

text \<open>
  A cell of a pandas row is null (\<open>NaN\<close>/\<open>None\<close>, for which \<open>pd.isna\<close> holds), a Python
  \<open>str\<close>, or another non-null scalar (a number or a boolean read by \<open>read_csv\<close>), kept
  with its \<open>str()\<close> rendering.
\<close>

datatype cell = Null | Str string | NonStr string

definition isna :: "cell \<Rightarrow> bool" where
  "isna c = (c = Null)"

fun str_of :: "cell \<Rightarrow> string" where
  "str_of Null = ''nan''"
| "str_of (Str s) = s"
| "str_of (NonStr s) = s"

text \<open>
  \<open>pd.notna(row.get(k))\<close>, \<open>row.get(k, default)\<close>: a row is the association of the
  column names with the cells; a column that the table does not have is absent.
\<close>

type_synonym row = "(string \<times> cell) list"

definition row_get :: "row \<Rightarrow> string \<Rightarrow> cell \<Rightarrow> cell" where
  "row_get r k dflt = (case map_of r k of None \<Rightarrow> dflt | Some v \<Rightarrow> v)"

datatype py_error = KeyError string | AttributeError

section \<open>Identity normalizer (\<open>graph_builder.py\<close>)\<close>

text \<open>The expression \<open>domain.replace("https://", "").replace("http://", "")\<close>.\<close>

definition strip_protocols :: "string \<Rightarrow> string" where
  "strip_protocols s = remove_all ''http://'' (remove_all ''https://'' s)"

text \<open>\<open>DomainNetworkBuilder._normalize_domain\<close>\<close>

definition normalize_domain :: "cell \<Rightarrow> string" where
  "normalize_domain domain =
     (if isna domain then []
      else
        let d1 = lower (strip (str_of domain));
            d2 = strip_protocols d1;
            d3 = (if prefix ''www.'' d2 then drop 4 d2 else d2)
        in rstrip_slash d3)"

text \<open>\<open>DomainNetworkBuilder._parse_domain_list\<close>: the loop over the comma-separated pieces.\<close>

fun parse_domain_pieces :: "string list \<Rightarrow> string list" where
  "parse_domain_pieces [] = []"
| "parse_domain_pieces (p # ps) =
     (let normalized = normalize_domain (Str (strip p))
      in if normalized \<noteq> [] then normalized # parse_domain_pieces ps
         else parse_domain_pieces ps)"

definition parse_domain_list :: "cell \<Rightarrow> string list" where
  "parse_domain_list domain_string =
     (if isna domain_string then []
      else parse_domain_pieces (split_on CHR '','' (str_of domain_string)))"

text \<open>\<open>DomainNetworkBuilder._parse_crypto_list\<close>: pieces are trimmed only.\<close>

fun parse_crypto_pieces :: "string list \<Rightarrow> string list" where
  "parse_crypto_pieces [] = []"
| "parse_crypto_pieces (p # ps) =
     (let address = strip p
      in if address \<noteq> [] then address # parse_crypto_pieces ps
         else parse_crypto_pieces ps)"

definition parse_crypto_list :: "cell \<Rightarrow> string list" where
  "parse_crypto_list crypto_string =
     (if isna crypto_string then []
      else parse_crypto_pieces (split_on CHR '','' (str_of crypto_string)))"

section \<open>Node registry (\<open>node_manager.py\<close>)\<close>

record node_style =
  ns_size :: nat
  ns_color :: string
  ns_stroke_color :: string
  ns_stroke_width :: nat
  ns_shape :: string
  ns_label_size :: nat
  ns_label_color :: string
  ns_opacity :: rat

text \<open>\<open>NodeManager._initialize_node_styles\<close>\<close>

definition source_domain_style :: node_style where
  "source_domain_style =
     \<lparr>ns_size = 30, ns_color = ''#e74c3c'', ns_stroke_color = ''#c0392b'', ns_stroke_width = 3,
      ns_shape = ''circle'', ns_label_size = 16, ns_label_color = ''#2c3e50'', ns_opacity = 9 / 10\<rparr>"

definition btc_address_style :: node_style where
  "btc_address_style =
     \<lparr>ns_size = 35, ns_color = ''#f39c12'', ns_stroke_color = ''#e67e22'', ns_stroke_width = 3,
      ns_shape = ''square'', ns_label_size = 12, ns_label_color = ''#2c3e50'', ns_opacity = 9 / 10\<rparr>"

definition node_styles :: "(string \<times> node_style) list" where
  "node_styles =
    [(''source_domain'', source_domain_style),
     (''lookalike_domain'',
        \<lparr>ns_size = 25, ns_color = ''#3498db'', ns_stroke_color = ''#2980b9'', ns_stroke_width = 2,
         ns_shape = ''circle'', ns_label_size = 14, ns_label_color = ''#2c3e50'', ns_opacity = 8 / 10\<rparr>),
     (''same_ip_domain'',
        \<lparr>ns_size = 25, ns_color = ''#1abc9c'', ns_stroke_color = ''#16a085'', ns_stroke_width = 2,
         ns_shape = ''circle'', ns_label_size = 14, ns_label_color = ''#2c3e50'', ns_opacity = 8 / 10\<rparr>),
     (''btc_address'', btc_address_style),
     (''eth_address'',
        \<lparr>ns_size = 30, ns_color = ''#9b59b6'', ns_stroke_color = ''#8e44ad'', ns_stroke_width = 2,
         ns_shape = ''circle'', ns_label_size = 12, ns_label_color = ''#2c3e50'', ns_opacity = 9 / 10\<rparr>),
     (''tron_address'',
        \<lparr>ns_size = 30, ns_color = ''#e74c3c'', ns_stroke_color = ''#c0392b'', ns_stroke_width = 2,
         ns_shape = ''triangle'', ns_label_size = 12, ns_label_color = ''#2c3e50'', ns_opacity = 9 / 10\<rparr>)]"

text \<open>\<open>self.node_styles.get(key, fallback)\<close>\<close>

definition style_for :: "string \<Rightarrow> node_style \<Rightarrow> node_style" where
  "style_for key fallback = (case map_of node_styles key of Some st \<Rightarrow> st | None \<Rightarrow> fallback)"

record style_meta =
  sm_stroke_color :: string
  sm_stroke_width :: nat
  sm_label_size :: nat
  sm_label_color :: string
  sm_opacity :: rat

definition style_meta_of :: "node_style \<Rightarrow> style_meta" where
  "style_meta_of st =
     \<lparr>sm_stroke_color = ns_stroke_color st, sm_stroke_width = ns_stroke_width st,
      sm_label_size = ns_label_size st, sm_label_color = ns_label_color st,
      sm_opacity = ns_opacity st\<rparr>"

text \<open>The \<open>metadata\<close> dictionary of a \<open>NodeData\<close>: one shape for domains, one for crypto addresses.\<close>

datatype metadata =
  DomainMeta (md_domain_type: string) (md_ip_address: cell) (md_screenshot: cell) (md_url: cell)
    (md_inreach_intel_summary: cell) (md_discovery_method: cell) (md_style: style_meta)
| CryptoMeta (md_chain: string) (md_full_address: string) (md_discovery_method: cell)
    (md_explorer_url: string) (md_style: style_meta)

record node_data =
  nd_id :: string
  nd_label :: string
  nd_type :: string
  nd_node_type :: string
  nd_size :: nat
  nd_color :: string
  nd_shape :: string
  nd_metadata :: metadata

text \<open>
  \<open>NodeManager.nodes\<close> is a Python dictionary: keys are unique and iteration follows the
  order of first insertion, so it is an association list updated in place
  (\<^const>\<open>AList.update\<close>) and read with \<^const>\<open>map_of\<close>.
\<close>

type_synonym registry = "(string \<times> node_data) list"

definition dict_get :: "(string \<times> cell) list \<Rightarrow> string \<Rightarrow> cell \<Rightarrow> cell" where
  "dict_get m k dflt = (case map_of m k of None \<Rightarrow> dflt | Some v \<Rightarrow> v)"

text \<open>\<open>NodeManager.create_domain_node\<close>\<close>

definition create_domain_node ::
  "registry \<Rightarrow> string \<Rightarrow> string \<Rightarrow> (string \<times> cell) list \<Rightarrow> registry \<times> node_data" where
  "create_domain_node nodes domain_id domain_type metadata =
     (let style = style_for domain_type source_domain_style;
          label0 = remove_all ''www.'' (remove_all ''http://'' (remove_all ''https://'' domain_id));
          label = (if length label0 > 25 then take 22 label0 @ ''...'' else label0);
          node = \<lparr>nd_id = domain_id, nd_label = label, nd_type = ''domain'',
                  nd_node_type = domain_type, nd_size = ns_size style, nd_color = ns_color style,
                  nd_shape = ns_shape style,
                  nd_metadata = DomainMeta domain_type
                    (dict_get metadata ''ip_address'' (Str []))
                    (dict_get metadata ''screenshot'' (Str []))
                    (dict_get metadata ''url'' (Str []))
                    (dict_get metadata ''inreach_intel_summary'' (Str []))
                    (dict_get metadata ''discovery_method'' (Str []))
                    (style_meta_of style)\<rparr>
      in (AList.update domain_id node nodes, node))"

text \<open>
  \<open>NodeManager.create_crypto_node\<close>: \<open>chain.lower()\<close> raises \<open>AttributeError\<close> when
  \<open>chain\<close> is not a \<open>str\<close> (a null or numeric cell), before anything is stored.
\<close>

definition create_crypto_node ::
  "registry \<Rightarrow> string \<Rightarrow> cell \<Rightarrow> (string \<times> cell) list \<Rightarrow> py_error + registry \<times> node_data" where
  "create_crypto_node nodes address chain metadata =
     (case chain of
        Str ch \<Rightarrow>
          (let node_type = lower ch @ ''_address'';
               style = style_for node_type btc_address_style;
               label = (if length address > 12
                        then take 6 address @ ''...'' @ drop (length address - 6) address
                        else address);
               node = \<lparr>nd_id = address, nd_label = label, nd_type = ''crypto'',
                       nd_node_type = node_type, nd_size = ns_size style, nd_color = ns_color style,
                       nd_shape = ns_shape style,
                       nd_metadata = CryptoMeta ch address
                         (dict_get metadata ''discovery_method'' (Str []))
                         (''https://alterya_rnd.alterya.io/explorer/'' @ ch @ ''/'' @ address
                            @ ''/overview'')
                         (style_meta_of style)\<rparr>
           in Inr (AList.update address node nodes, node))
      | _ \<Rightarrow> Inl AttributeError)"

definition get_node :: "registry \<Rightarrow> string \<Rightarrow> node_data option" where
  "get_node nodes node_id = map_of nodes node_id"

definition get_all_nodes :: "registry \<Rightarrow> node_data list" where
  "get_all_nodes nodes = map snd nodes"

text \<open>The per-key counter \<open>counts[k] = counts.get(k, 0) + 1\<close> of both statistics loops.\<close>

definition bump :: "string \<Rightarrow> (string \<times> nat) list \<Rightarrow> (string \<times> nat) list" where
  "bump k counts = AList.update k (case map_of counts k of None \<Rightarrow> 1 | Some n \<Rightarrow> n + 1) counts"

record node_statistics =
  total_nodes :: nat
  domain_nodes :: nat
  crypto_nodes :: nat
  by_type :: "(string \<times> nat) list"

definition get_node_statistics :: "registry \<Rightarrow> node_statistics" where
  "get_node_statistics nodes =
     \<lparr>total_nodes = length nodes,
      domain_nodes = length (filter (\<lambda>n. nd_type n = ''domain'') (map snd nodes)),
      crypto_nodes = length (filter (\<lambda>n. nd_type n = ''crypto'') (map snd nodes)),
      by_type = fold (\<lambda>n. bump (nd_node_type n)) (map snd nodes) []\<rparr>"

section \<open>The undirected graph of the \<open>networkx\<close> library\<close>

text \<open>
  \<open>nx.Graph\<close> is a simple undirected graph: a node is stored once, and an edge between
  two nodes is stored once whatever its direction and however often it is added (adding
  it again updates its attributes). A self-loop is one edge. The attribute dictionaries
  are left out: the statistics read the two counts only.
\<close>

record nx_graph =
  g_nodes :: "string list"
  g_edges :: "(string \<times> string) list"

definition graph_clear :: "nx_graph \<Rightarrow> nx_graph" where
  "graph_clear g = \<lparr>g_nodes = [], g_edges = []\<rparr>"

definition graph_add_node :: "string \<Rightarrow> nx_graph \<Rightarrow> nx_graph" where
  "graph_add_node n g = (if n \<in> set (g_nodes g) then g else g\<lparr>g_nodes := g_nodes g @ [n]\<rparr>)"

definition graph_add_edge :: "string \<Rightarrow> string \<Rightarrow> nx_graph \<Rightarrow> nx_graph" where
  "graph_add_edge u v g =
     (let g1 = graph_add_node v (graph_add_node u g)
      in if (u, v) \<in> set (g_edges g1) \<or> (v, u) \<in> set (g_edges g1) then g1
         else g1\<lparr>g_edges := g_edges g1 @ [(u, v)]\<rparr>)"

definition number_of_nodes :: "nx_graph \<Rightarrow> nat" where
  "number_of_nodes g = length (g_nodes g)"

definition number_of_edges :: "nx_graph \<Rightarrow> nat" where
  "number_of_edges g = length (g_edges g)"

text \<open>
  \<open>nx.density\<close> on an undirected graph: \<open>0\<close> when there is no edge or at most one node,
  else \<open>m / (n * (n - 1))\<close> doubled. The float is modelled by the exact rational; doubling
  a float is exact, so the two ways of writing \<open>2m / (n(n-1))\<close> agree.
\<close>

definition density :: "nx_graph \<Rightarrow> rat" where
  "density g =
     (let n = number_of_nodes g; m = number_of_edges g
      in if m = 0 \<or> n \<le> 1 then 0
         else (of_nat m / (of_nat n * (of_nat n - 1))) * 2)"

section \<open>Graph assembler (\<open>graph_builder.py\<close>)\<close>

record edge =
  e_source :: string
  e_target :: string
  e_type :: string
  e_chain :: "cell option"
  e_discovery_method :: cell
  e_color :: string

record builder =
  graph :: nx_graph
  node_manager :: registry
  edges :: "edge list"
  processed_rows :: nat
  skipped_rows :: nat

text \<open>\<open>DomainNetworkBuilder._get_edge_color\<close>\<close>

definition get_edge_color :: "string \<Rightarrow> string" where
  "get_edge_color edge_type =
     (case map_of [(''lookalike_domain'', ''#3498db''), (''same_ip_domain'', ''#f39c12''),
                   (''domain_to_crypto'', ''#e74c3c'')] edge_type of
        Some c \<Rightarrow> c
      | None \<Rightarrow> ''#95a5a6'')"

text \<open>
  \<open>_create_or_get_domain_node\<close>, \<open>_create_or_get_crypto_node\<close>: a \<open>NodeData\<close> object is
  always truthy, so \<open>if existing_node\<close> asks whether the key is in the registry, whatever
  kind of node is stored under it.
\<close>

definition create_or_get_domain_node ::
  "builder \<Rightarrow> string \<Rightarrow> string \<Rightarrow> (string \<times> cell) list \<Rightarrow> builder \<times> node_data" where
  "create_or_get_domain_node b domain domain_type metadata =
     (case get_node (node_manager b) domain of
        Some existing_node \<Rightarrow> (b, existing_node)
      | None \<Rightarrow>
          (let (nodes', node) = create_domain_node (node_manager b) domain domain_type metadata
           in (b\<lparr>node_manager := nodes'\<rparr>, node)))"

definition create_or_get_crypto_node ::
  "builder \<Rightarrow> string \<Rightarrow> cell \<Rightarrow> (string \<times> cell) list \<Rightarrow> py_error + builder \<times> node_data" where
  "create_or_get_crypto_node b address chain metadata =
     (case get_node (node_manager b) address of
        Some existing_node \<Rightarrow> Inr (b, existing_node)
      | None \<Rightarrow>
          (case create_crypto_node (node_manager b) address chain metadata of
             Inl err \<Rightarrow> Inl err
           | Inr (nodes', node) \<Rightarrow> Inr (b\<lparr>node_manager := nodes'\<rparr>, node)))"

text \<open>The metadata dictionary that \<open>_process_row\<close> and \<open>_create_domain_relationship\<close> build.\<close>

definition domain_metadata :: "row \<Rightarrow> string \<Rightarrow> (string \<times> cell) list" where
  "domain_metadata r url =
     [(''ip_address'', row_get r ''IPs'' (Str [])),
      (''screenshot'', row_get r ''screenshot'' (Str [])),
      (''url'', Str url),
      (''inreach_intel_summary'', row_get r ''inreach_intel_summary'' (Str [])),
      (''discovery_method'', row_get r ''discovery_method'' (Str []))]"

text \<open>\<open>DomainNetworkBuilder._create_domain_relationship\<close>\<close>

definition create_domain_relationship ::
  "string \<Rightarrow> string \<Rightarrow> row \<Rightarrow> string \<Rightarrow> builder \<Rightarrow> builder" where
  "create_domain_relationship source_domain relationship_type r target_domain0 b =
     (let target_domain = normalize_domain (Str target_domain0)
      in if target_domain = [] \<or> target_domain = source_domain then b
         else
           let (b1, target_node) =
                 create_or_get_domain_node b target_domain relationship_type
                   (domain_metadata r target_domain);
               edge = \<lparr>e_source = source_domain, e_target = target_domain,
                       e_type = relationship_type, e_chain = None,
                       e_discovery_method = row_get r ''discovery_method'' (Str []),
                       e_color = get_edge_color relationship_type\<rparr>
           in b1\<lparr>edges := edges b1 @ [edge],
                 graph := graph_add_edge source_domain target_domain (graph b1)\<rparr>)"

text \<open>
  \<open>DomainNetworkBuilder._create_crypto_relationship\<close>: the only statement that can raise
  is the creation of the node, which comes before every write of the call.
\<close>

definition create_crypto_relationship ::
  "string \<Rightarrow> cell \<Rightarrow> row \<Rightarrow> string \<Rightarrow> builder \<Rightarrow> py_error + builder" where
  "create_crypto_relationship source_domain chain r crypto_address b =
     (if crypto_address = [] then Inr b
      else
        case create_or_get_crypto_node b crypto_address chain
               [(''discovery_method'', row_get r ''discovery_method'' (Str [])),
                (''source_domain'', Str source_domain)] of
          Inl err \<Rightarrow> Inl err
        | Inr (b1, crypto_node) \<Rightarrow>
            (let edge = \<lparr>e_source = source_domain, e_target = crypto_address,
                         e_type = ''domain_to_crypto'', e_chain = Some chain,
                         e_discovery_method = row_get r ''discovery_method'' (Str []),
                         e_color = get_edge_color ''domain_to_crypto''\<rparr>
             in Inr (b1\<lparr>edges := edges b1 @ [edge],
                         graph := graph_add_edge source_domain crypto_address (graph b1)\<rparr>)))"

text \<open>
  The \<open>for address in crypto_addresses\<close> loop: an exception leaves the loop and the row,
  with the builder as the completed iterations left it.
\<close>

fun crypto_loop ::
  "string \<Rightarrow> cell \<Rightarrow> row \<Rightarrow> string list \<Rightarrow> builder \<Rightarrow> builder \<times> py_error option" where
  "crypto_loop source_domain chain r [] b = (b, None)"
| "crypto_loop source_domain chain r (address # rest) b =
     (case create_crypto_relationship source_domain chain r address b of
        Inl err \<Rightarrow> (b, Some err)
      | Inr b1 \<Rightarrow> crypto_loop source_domain chain r rest b1)"

text \<open>The two \<open>for domain in ...\<close> loops of \<open>_process_row\<close>, guarded by \<open>pd.notna(row.get(column))\<close>.\<close>

definition process_domain_column :: "string \<Rightarrow> string \<Rightarrow> row \<Rightarrow> builder \<Rightarrow> builder" where
  "process_domain_column source_domain column r b =
     (case map_of r column of
        None \<Rightarrow> b
      | Some v \<Rightarrow>
          if isna v then b
          else fold (create_domain_relationship source_domain column r) (parse_domain_list v) b)"

text \<open>
  \<open>DomainNetworkBuilder._process_row\<close>. The result pairs the builder as the row left it
  with the exception that ended the row, if any: \<open>row["source_domain"]\<close> raises
  \<open>KeyError\<close> when the table has no such column.
\<close>

definition process_row :: "builder \<Rightarrow> row \<Rightarrow> builder \<times> py_error option" where
  "process_row b r =
     (case map_of r ''source_domain'' of
        None \<Rightarrow> (b, Some (KeyError ''source_domain''))
      | Some raw \<Rightarrow>
          (let source_domain = normalize_domain raw
           in if source_domain = [] then (b, None)
              else
                let (b1, source_node) =
                      create_or_get_domain_node b source_domain ''source_domain''
                        (domain_metadata r source_domain);
                    b2 = process_domain_column source_domain ''lookalike_domain'' r b1;
                    b3 = process_domain_column source_domain ''same_ip_domain'' r b2
                in (case map_of r ''crypto_address'' of
                      None \<Rightarrow> (b3, None)
                    | Some v \<Rightarrow>
                        if isna v then (b3, None)
                        else crypto_loop source_domain (row_get r ''chain'' (Str ''BTC'')) r
                               (parse_crypto_list v) b3)))"

text \<open>The body of the \<open>for index, row in df.iterrows()\<close> loop of \<open>build_graph\<close>, with its \<open>try\<close>.\<close>

definition build_step :: "builder \<Rightarrow> row \<Rightarrow> builder" where
  "build_step b r =
     (case process_row b r of
        (b1, None) \<Rightarrow> b1\<lparr>processed_rows := processed_rows b1 + 1\<rparr>
      | (b1, Some err) \<Rightarrow> b1\<lparr>skipped_rows := skipped_rows b1 + 1\<rparr>)"

definition build_rows :: "builder \<Rightarrow> row list \<Rightarrow> builder" where
  "build_rows b rows = foldl build_step b rows"

text \<open>\<open>DomainNetworkBuilder._add_node_attributes_to_graph\<close>\<close>

definition add_node_attributes_to_graph :: "builder \<Rightarrow> builder" where
  "add_node_attributes_to_graph b =
     b\<lparr>graph := fold (\<lambda>node. graph_add_node (nd_id node)) (get_all_nodes (node_manager b)) (graph b)\<rparr>"

record statistics =
  st_nodes :: nat
  st_edges :: nat
  st_processed_rows :: nat
  st_skipped_rows :: nat
  st_node_breakdown :: "(string \<times> nat) list"
  st_edge_breakdown :: "(string \<times> nat) list"
  st_network_density :: rat

text \<open>\<open>DomainNetworkBuilder._generate_statistics\<close>\<close>

definition generate_statistics :: "builder \<Rightarrow> statistics" where
  "generate_statistics b =
     (let node_stats = get_node_statistics (node_manager b);
          edge_counts = fold (\<lambda>e. bump (e_type e)) (edges b) []
      in \<lparr>st_nodes = total_nodes node_stats,
          st_edges = length (edges b),
          st_processed_rows = processed_rows b,
          st_skipped_rows = skipped_rows b,
          st_node_breakdown = by_type node_stats,
          st_edge_breakdown = edge_counts,
          st_network_density = (if number_of_nodes (graph b) > 0 then density (graph b) else 0)\<rparr>)"

text \<open>
  The snapshot returned by \<open>build_graph\<close>. \<open>export_nodes_for_d3\<close> lists \<open>to_dict()\<close> of
  every node in registry order; \<open>to_dict\<close> flattens the same fields into one dictionary,
  so the node records stand for it.
\<close>

record snapshot =
  snap_nodes :: "node_data list"
  snap_links :: "edge list"
  snap_statistics :: statistics

definition clear_builder :: "builder \<Rightarrow> builder" where
  "clear_builder b =
     \<lparr>graph = graph_clear (graph b), node_manager = [], edges = [],
      processed_rows = 0, skipped_rows = 0\<rparr>"

definition built :: "builder \<Rightarrow> row list \<Rightarrow> builder" where
  "built b rows = add_node_attributes_to_graph (build_rows (clear_builder b) rows)"

text \<open>\<open>DomainNetworkBuilder.build_graph\<close>; \<^const>\<open>built\<close> is the builder it leaves behind.\<close>

definition build_graph :: "builder \<Rightarrow> row list \<Rightarrow> snapshot" where
  "build_graph b rows =
     (let b1 = built b rows
      in \<lparr>snap_nodes = get_all_nodes (node_manager b1),
          snap_links = edges b1,
          snap_statistics = generate_statistics b1\<rparr>)"

definition new_builder :: builder where
  "new_builder =
     \<lparr>graph = \<lparr>g_nodes = [], g_edges = []\<rparr>, node_manager = [], edges = [],
      processed_rows = 0, skipped_rows = 0\<rparr>"

section \<open>Size-bounded selector (\<open>unified_html_generator.py\<close>)\<close>

text \<open>
  A node of the node-link data is a dictionary: \<open>id\<close> is always there, the three keys the
  selector reads may be missing or empty, and \<open>n_attrs\<close> stands for every other key.
  An endpoint of a link is the node's identifier, or a node dictionary of which the
  identifier is read.
\<close>

record 'a gnode =
  n_id :: string
  n_domain_type :: "string option"
  n_node_type :: "string option"
  n_type :: "string option"
  n_attrs :: 'a

datatype 'a endpoint = Ident string | NodeObj "'a gnode"

record ('a, 'b) link =
  l_source :: "'a endpoint"
  l_target :: "'a endpoint"
  l_attrs :: 'b

record ('a, 'b) graph_data =
  gd_nodes :: "'a gnode list"
  gd_links :: "('a, 'b) link list"

text \<open>\<open>node.get("domain_type") or node.get("node_type", "")\<close>\<close>

definition domain_type_of :: "'a gnode \<Rightarrow> string" where
  "domain_type_of node =
     (case n_domain_type node of
        Some d \<Rightarrow> if d \<noteq> [] then d else (case n_node_type node of Some t \<Rightarrow> t | None \<Rightarrow> [])
      | None \<Rightarrow> (case n_node_type node of Some t \<Rightarrow> t | None \<Rightarrow> []))"

text \<open>The \<open>if\<close>/\<open>elif\<close> chain that sends a node to \<open>priority_nodes\<close>.\<close>

definition is_priority :: "'a gnode \<Rightarrow> bool" where
  "is_priority node =
     (domain_type_of node = ''source_domain'' \<or> n_type node = Some ''crypto''
      \<or> domain_type_of node = ''lookalike_domain'')"

text \<open>\<open>xs[::k]\<close> for a step \<open>k \<ge> 1\<close> (the selector never passes another step).\<close>

fun slice_step :: "nat \<Rightarrow> 'a list \<Rightarrow> 'a list" where
  "slice_step k [] = []"
| "slice_step k (x # xs) = x # slice_step k (drop (k - 1) xs)"

text \<open>\<open>link["source"] if isinstance(link["source"], str) else link["source"]["id"]\<close>\<close>

fun endpoint_id :: "'a endpoint \<Rightarrow> string" where
  "endpoint_id (Ident s) = s"
| "endpoint_id (NodeObj node) = n_id node"

definition target_same_ip :: "nat \<Rightarrow> nat" where
  "target_same_ip count = (if count > 2000 then 1000 else 1200)"

definition sample_rate :: "nat \<Rightarrow> nat" where
  "sample_rate count = max 1 (count div target_same_ip count)"

definition select_nodes :: "'a gnode list \<Rightarrow> 'a gnode list" where
  "select_nodes nodes =
     (let priority_nodes = filter is_priority nodes;
          other_nodes = filter (\<lambda>n. \<not> is_priority n) nodes
      in if length other_nodes > 1500
         then
           let same_ip_nodes = filter (\<lambda>n. n_domain_type n = Some ''same_ip_domain'') other_nodes;
               selected_same_ip = slice_step (sample_rate (length same_ip_nodes)) same_ip_nodes
           in priority_nodes @ selected_same_ip
         else priority_nodes @ other_nodes)"

text \<open>\<open>UnifiedHTMLGenerator._smart_optimize_network\<close>\<close>

definition smart_optimize_network :: "('a, 'b) graph_data \<Rightarrow> ('a, 'b) graph_data" where
  "smart_optimize_network graph_data =
     (let selected_nodes = select_nodes (gd_nodes graph_data);
          node_ids = set (map n_id selected_nodes);
          filtered_links =
            filter (\<lambda>link. endpoint_id (l_source link) \<in> node_ids
                            \<and> endpoint_id (l_target link) \<in> node_ids)
              (gd_links graph_data)
      in \<lparr>gd_nodes = selected_nodes, gd_links = filtered_links\<rparr>)"

text \<open>The data that \<open>create_html\<close> embeds: reduced when there are more than 1000 nodes.\<close>

definition optimized_data :: "('a, 'b) graph_data \<Rightarrow> ('a, 'b) graph_data" where
  "optimized_data graph_data =
     (if length (gd_nodes graph_data) > 1000 then smart_optimize_network graph_data
      else graph_data)"

section \<open>Vocabulary for the selector's properties\<close>

text \<open>The local variables \<open>other_nodes\<close> and \<open>same_ip_nodes\<close> of the selector, as functions.\<close>


definition is_lookalike :: "'a gnode \<Rightarrow> bool" where
  "is_lookalike node = (domain_type_of node = ''lookalike_domain'')"

definition is_source_or_crypto :: "'a gnode \<Rightarrow> bool" where
  "is_source_or_crypto node =
     (domain_type_of node = ''source_domain'' \<or> n_type node = Some ''crypto'')"

definition other_nodes :: "'a gnode list \<Rightarrow> 'a gnode list" where
  "other_nodes nodes = filter (\<lambda>n. \<not> is_priority n) nodes"

definition same_ip_nodes :: "'a gnode list \<Rightarrow> 'a gnode list" where
  "same_ip_nodes nodes = filter (\<lambda>n. n_domain_type n = Some ''same_ip_domain'') (other_nodes nodes)"

definition domain_node :: "string \<Rightarrow> string \<Rightarrow> unit gnode" where
  "domain_node role ident =
     \<lparr>n_id = ident, n_domain_type = Some role, n_node_type = Some role,
      n_type = Some ''domain'', n_attrs = ()\<rparr>"

definition crypto_node :: "string \<Rightarrow> unit gnode" where
  "crypto_node ident =
     \<lparr>n_id = ident, n_domain_type = None, n_node_type = Some ''btc_address'',
      n_type = Some ''crypto'', n_attrs = ()\<rparr>"

definition same_ip_node :: "nat \<Rightarrow> unit gnode" where
  "same_ip_node i = domain_node ''same_ip_domain'' (CHR ''h'' # replicate i CHR ''x'')"

definition lookalike_node :: "nat \<Rightarrow> unit gnode" where
  "lookalike_node i = domain_node ''lookalike_domain'' (CHR ''l'' # replicate i CHR ''x'')"

definition node_ids :: "'a gnode list \<Rightarrow> string set" where
  "node_ids nodes = set (map n_id nodes)"

definition link_closed :: "'a gnode list \<Rightarrow> ('a, 'b) link \<Rightarrow> bool" where
  "link_closed nodes link =
     (endpoint_id (l_source link) \<in> node_ids nodes \<and> endpoint_id (l_target link) \<in> node_ids nodes)"

text \<open>
  The stride as the specification words it, \<open>N = ceil(count / target)\<close>, to be compared
  with \<^const>\<open>sample_rate\<close>.
\<close>

definition spec_stride :: "nat \<Rightarrow> nat \<Rightarrow> nat" where
  "spec_stride count target = (count + target - 1) div target"

text \<open>
  Example data: one source domain, one crypto address and 2001 same-IP domains, with three
  links; a list of three nodes; and 500 lookalike domains followed by 1501 same-IP domains.
\<close>

definition selector_example :: "(unit, unit) graph_data" where
  "selector_example =
     \<lparr>gd_nodes = domain_node ''source_domain'' ''source.com'' # crypto_node ''1A2b3C''
                  # map same_ip_node [0..<2001],
      gd_links =
        [\<lparr>l_source = Ident ''source.com'', l_target = Ident ''1A2b3C'', l_attrs = ()\<rparr>,
         \<lparr>l_source = Ident ''source.com'', l_target = Ident ''hx'', l_attrs = ()\<rparr>,
         \<lparr>l_source = Ident ''source.com'', l_target = NodeObj (same_ip_node 2), l_attrs = ()\<rparr>]\<rparr>"

definition small_example :: "unit gnode list" where
  "small_example =
     [domain_node ''source_domain'' ''source.com'', same_ip_node 0, lookalike_node 0]"

definition cap_example :: "unit gnode list" where
  "cap_example = map lookalike_node [0..<500] @ map same_ip_node [0..<1501]"

section \<open>Vocabulary for the builder's properties\<close>

text \<open>
  One step of the registry: every entry stays as it is, and an entry under a key that was
  free satisfies \<open>P\<close>.
\<close>

definition reg_step :: "(string \<Rightarrow> node_data \<Rightarrow> bool) \<Rightarrow> registry \<Rightarrow> registry \<Rightarrow> bool" where
  "reg_step P reg reg' \<longleftrightarrow>
     (\<forall>k n. map_of reg k = Some n \<longrightarrow> map_of reg' k = Some n)
     \<and> (\<forall>k n. map_of reg k = None \<longrightarrow> map_of reg' k = Some n \<longrightarrow> P k n)"

definition builder_step :: "(string \<Rightarrow> node_data \<Rightarrow> bool) \<Rightarrow> builder \<Rightarrow> builder \<Rightarrow> bool" where
  "builder_step P b b' \<longleftrightarrow>
     reg_step P (node_manager b) (node_manager b') \<and> prefix (edges b) (edges b')"

text \<open>The two endpoints of an edge without their direction.\<close>

definition upair :: "string \<times> string \<Rightarrow> string set" where
  "upair p = {fst p, snd p}"

definition edge_pair :: "edge \<Rightarrow> string set" where
  "edge_pair e = {e_source e, e_target e}"

definition registry_keys :: "registry \<Rightarrow> string set" where
  "registry_keys reg = fst ` set reg"

text \<open>
  What holds of a builder between two rows: the registry has one entry per key, filed
  under the node's own identifier; every edge joins registered keys; the graph has the
  registered endpoints as nodes and one edge per pair of joined endpoints; and an edge
  without a chain tag (a domain-to-domain edge) joins two different keys.
\<close>

definition builder_inv :: "builder \<Rightarrow> bool" where
  "builder_inv b \<longleftrightarrow>
     distinct (map fst (node_manager b))
     \<and> (\<forall>k n. map_of (node_manager b) k = Some n \<longrightarrow> nd_id n = k)
     \<and> (\<forall>e \<in> set (edges b). e_source e \<in> registry_keys (node_manager b)
                              \<and> e_target e \<in> registry_keys (node_manager b))
     \<and> distinct (g_nodes (graph b))
     \<and> set (g_nodes (graph b)) \<subseteq> registry_keys (node_manager b)
     \<and> distinct (map upair (g_edges (graph b)))
     \<and> upair ` set (g_edges (graph b)) = edge_pair ` set (edges b)
     \<and> (\<forall>e \<in> set (edges b). e_chain e = None \<longrightarrow> e_source e \<noteq> e_target e)"

text \<open>The edge dictionaries that the two relationship functions append.\<close>

definition domain_edge :: "string \<Rightarrow> string \<Rightarrow> string \<Rightarrow> row \<Rightarrow> edge" where
  "domain_edge s d t r =
     \<lparr>e_source = s, e_target = d, e_type = t, e_chain = None,
      e_discovery_method = row_get r ''discovery_method'' (Str []),
      e_color = get_edge_color t\<rparr>"

definition crypto_edge :: "string \<Rightarrow> string \<Rightarrow> cell \<Rightarrow> row \<Rightarrow> edge" where
  "crypto_edge s a chain r =
     \<lparr>e_source = s, e_target = a, e_type = ''domain_to_crypto'', e_chain = Some chain,
      e_discovery_method = row_get r ''discovery_method'' (Str []),
      e_color = get_edge_color ''domain_to_crypto''\<rparr>"

definition crypto_metadata :: "string \<Rightarrow> row \<Rightarrow> (string \<times> cell) list" where
  "crypto_metadata s r =
     [(''discovery_method'', row_get r ''discovery_method'' (Str [])),
      (''source_domain'', Str s)]"

text \<open>The number of distinct unordered endpoint pairs among the edges.\<close>

definition distinct_pairs :: "edge list \<Rightarrow> nat" where
  "distinct_pairs es = card (edge_pair ` set es)"

text \<open>The row of the specification's scenario, and the same row twice.\<close>

definition scenario_row :: row where
  "scenario_row =
     [(''source_domain'', Str ''https://Evil.com/''),
      (''lookalike_domain'', Str ''evil-2.com, evil3.com''),
      (''crypto_address'', Str ''1A2b3C''),
      (''chain'', Str ''BTC'')]"

text \<open>
  What claim C9 says of a crypto entity created for a row whose chain value is \<open>chain\<close>:
  the chain is kept as given, the style key is the lowercased chain followed by
  \<open>_address\<close>, and the style is the one of that key or else the BTC style.
\<close>

definition crypto_entity_of :: "cell \<Rightarrow> node_data \<Rightarrow> bool" where
  "crypto_entity_of chain n =
     (case chain of
        Str ch \<Rightarrow>
          (let st = (case map_of node_styles (lower ch @ ''_address'') of
                       Some st \<Rightarrow> st
                     | None \<Rightarrow> btc_address_style)
           in md_chain (nd_metadata n) = ch
              \<and> nd_node_type n = lower ch @ ''_address''
              \<and> nd_size n = ns_size st \<and> nd_color n = ns_color st \<and> nd_shape n = ns_shape st
              \<and> md_style (nd_metadata n) = style_meta_of st)
      | _ \<Rightarrow> False)"

text \<open>Example rows.\<close>

definition empty_source_row :: row where
  "empty_source_row = [(''source_domain'', Str ''https://''), (''lookalike_domain'', Str ''b.com'')]"

definition self_loop_row :: row where
  "self_loop_row = [(''source_domain'', Str ''bc1qxyz''), (''crypto_address'', Str ''bc1qxyz'')]"

definition failing_row :: row where
  "failing_row =
     [(''source_domain'', Str ''a.com''), (''lookalike_domain'', Str ''b.com''),
      (''crypto_address'', Str ''1A2b3C''), (''chain'', Null)]"




definition eth_row :: row where
  "eth_row =
     [(''source_domain'', Str ''evil.com''), (''crypto_address'', Str ''0xAbC''),
      (''chain'', Str ''Eth'')]"

definition no_chain_row :: row where
  "no_chain_row = [(''source_domain'', Str ''evil.com''), (''crypto_address'', Str ''1A2b3C'')]"

definition doge_row :: row where
  "doge_row =
     [(''source_domain'', Str ''evil.com''), (''crypto_address'', Str ''D8xyz''),
      (''chain'', Str ''DOGE'')]"

text \<open>The crypto entities expected of the three example rows, field by field.\<close>

definition eth_entity :: node_data where
  "eth_entity =
     \<lparr>nd_id = ''0xAbC'', nd_label = ''0xAbC'', nd_type = ''crypto'',
      nd_node_type = ''eth_address'', nd_size = 30, nd_color = ''#9b59b6'', nd_shape = ''circle'',
      nd_metadata = CryptoMeta ''Eth'' ''0xAbC'' (Str [])
        ''https://alterya_rnd.alterya.io/explorer/Eth/0xAbC/overview''
        \<lparr>sm_stroke_color = ''#8e44ad'', sm_stroke_width = 2, sm_label_size = 12,
         sm_label_color = ''#2c3e50'', sm_opacity = 9 / 10\<rparr>\<rparr>"

definition default_chain_entity :: node_data where
  "default_chain_entity =
     \<lparr>nd_id = ''1A2b3C'', nd_label = ''1A2b3C'', nd_type = ''crypto'',
      nd_node_type = ''btc_address'', nd_size = 35, nd_color = ''#f39c12'', nd_shape = ''square'',
      nd_metadata = CryptoMeta ''BTC'' ''1A2b3C'' (Str [])
        ''https://alterya_rnd.alterya.io/explorer/BTC/1A2b3C/overview''
        \<lparr>sm_stroke_color = ''#e67e22'', sm_stroke_width = 3, sm_label_size = 12,
         sm_label_color = ''#2c3e50'', sm_opacity = 9 / 10\<rparr>\<rparr>"

definition doge_entity :: node_data where
  "doge_entity =
     \<lparr>nd_id = ''D8xyz'', nd_label = ''D8xyz'', nd_type = ''crypto'',
      nd_node_type = ''doge_address'', nd_size = 35, nd_color = ''#f39c12'', nd_shape = ''square'',
      nd_metadata = CryptoMeta ''DOGE'' ''D8xyz'' (Str [])
        ''https://alterya_rnd.alterya.io/explorer/DOGE/D8xyz/overview''
        \<lparr>sm_stroke_color = ''#e67e22'', sm_stroke_width = 3, sm_label_size = 12,
         sm_label_color = ''#2c3e50'', sm_opacity = 9 / 10\<rparr>\<rparr>"






text \<open>
  The style of a crypto entity as the specification words it, with the entries of the
  style table written out: the style key is the lowercased chain followed by \<open>_address\<close>;
  the keys \<open>btc_address\<close>, \<open>eth_address\<close> and \<open>tron_address\<close> have their own styles, and
  every other key falls back to the BTC style. To be compared with the lookup of
  \<open>create_crypto_node\<close>.
\<close>

definition crypto_style_of :: "string \<Rightarrow> node_style" where
  "crypto_style_of ch =
     (let key = lower ch @ ''_address''
      in if key = ''eth_address''
         then \<lparr>ns_size = 30, ns_color = ''#9b59b6'', ns_stroke_color = ''#8e44ad'',
               ns_stroke_width = 2, ns_shape = ''circle'', ns_label_size = 12,
               ns_label_color = ''#2c3e50'', ns_opacity = 9 / 10\<rparr>
         else if key = ''tron_address''
         then \<lparr>ns_size = 30, ns_color = ''#e74c3c'', ns_stroke_color = ''#c0392b'',
               ns_stroke_width = 2, ns_shape = ''triangle'', ns_label_size = 12,
               ns_label_color = ''#2c3e50'', ns_opacity = 9 / 10\<rparr>
         else \<lparr>ns_size = 35, ns_color = ''#f39c12'', ns_stroke_color = ''#e67e22'',
               ns_stroke_width = 3, ns_shape = ''square'', ns_label_size = 12,
               ns_label_color = ''#2c3e50'', ns_opacity = 9 / 10\<rparr>)"

section \<open>Properties of the string primitives\<close>








section \<open>Properties of the stride slice\<close>

lemma set_slice_step: "set (slice_step k xs) \<subseteq> set xs"
proof (induction k xs rule: slice_step.induct)
  case (1 k)
  show ?case by simp
next
  case (2 k x xs)
  have "set (drop (k - 1) xs) \<subseteq> set xs" by (rule set_drop_subset)
  with 2 show ?case by auto
qed

lemma length_slice_step:
  "0 < k \<Longrightarrow> length (slice_step k xs) = (length xs + k - 1) div k"
proof (induction k xs rule: slice_step.induct)
  case (1 k)
  then show ?case by simp
next
  case (2 k x xs)
  have "length (slice_step k (x # xs)) = Suc ((length xs - (k - 1) + k - 1) div k)"
    using 2 by simp
  also have "(length xs - (k - 1) + k - 1) div k = length xs div k"
  proof (cases "k - 1 \<le> length xs")
    case True
    then have "length xs - (k - 1) + k - 1 = length xs" using 2(2) by simp
    then show ?thesis by (simp only:)
  next
    case False
    then have "length xs < k" "length xs - (k - 1) + k - 1 = k - 1" by simp_all
    then show ?thesis using 2(2) by simp
  qed
  also have "Suc (length xs div k) = (length (x # xs) + k - 1) div k"
    using 2(2) by (simp add: div_add_self2)
  finally show ?case .
qed

lemma nth_slice_step:
  "0 < k \<Longrightarrow> i < length (slice_step k xs) \<Longrightarrow> slice_step k xs ! i = xs ! (i * k)"
proof (induction k xs arbitrary: i rule: slice_step.induct)
  case (1 k)
  then show ?case by simp
next
  case (2 k x xs)
  show ?case
  proof (cases i)
    case 0
    then show ?thesis by simp
  next
    case (Suc j)
    with 2(3) have j: "j < length (slice_step k (drop (k - 1) xs))" by simp
    then have ne: "drop (k - 1) xs \<noteq> []" by auto
    then have le: "k - 1 \<le> length xs" by simp
    have "slice_step k (x # xs) ! i = slice_step k (drop (k - 1) xs) ! j"
      using Suc by simp
    also have "\<dots> = drop (k - 1) xs ! (j * k)" using 2(1)[OF 2(2) j] .
    also have "\<dots> = xs ! (k - 1 + j * k)" using le by simp
    also have "k - 1 + j * k = i * k - 1" using Suc 2(2) by simp
    also have "xs ! (i * k - 1) = (x # xs) ! (i * k)"
      using Suc 2(2) by (cases "i * k") auto
    finally show ?thesis .
  qed
qed

lemma slice_step_one: "slice_step (Suc 0) xs = xs"
  by (induction xs) simp_all

section \<open>The identity normalizer on a wrapped domain\<close>



















section \<open>The size-bounded selector\<close>

lemma select_nodes_small:
  "length (other_nodes nodes) \<le> 1500 \<Longrightarrow>
     select_nodes nodes = filter is_priority nodes @ other_nodes nodes"
  by (simp add: select_nodes_def other_nodes_def Let_def)

lemma select_nodes_big:
  "1500 < length (other_nodes nodes) \<Longrightarrow>
     select_nodes nodes =
       filter is_priority nodes
       @ slice_step (sample_rate (length (same_ip_nodes nodes))) (same_ip_nodes nodes)"
  by (simp add: select_nodes_def other_nodes_def same_ip_nodes_def Let_def)

lemma sample_rate_pos: "0 < sample_rate count"
  by (simp add: sample_rate_def)

lemma same_ip_not_priority: "n \<in> set (same_ip_nodes nodes) \<Longrightarrow> \<not> is_priority n"
  by (simp add: same_ip_nodes_def other_nodes_def)

lemma sampled_not_priority:
  "n \<in> set (slice_step k (same_ip_nodes nodes)) \<Longrightarrow> \<not> is_priority n"
  using set_slice_step[of k "same_ip_nodes nodes"] same_ip_not_priority by blast

lemma filter_priority_select:
  "filter is_priority (select_nodes nodes) = filter is_priority nodes"
proof (cases "1500 < length (other_nodes nodes)")
  case True
  have "filter is_priority (slice_step (sample_rate (length (same_ip_nodes nodes))) (same_ip_nodes nodes)) = []"
    using sampled_not_priority by (auto simp: filter_empty_conv)
  then show ?thesis by (simp add: select_nodes_big[OF True])
next
  case False
  then show ?thesis by (simp add: select_nodes_small other_nodes_def)
qed

lemma filter_other_select_small:
  "length (other_nodes nodes) \<le> 1500 \<Longrightarrow> other_nodes (select_nodes nodes) = other_nodes nodes"
  by (simp add: select_nodes_small) (simp add: other_nodes_def)

lemma filter_other_select_big:
  assumes "1500 < length (other_nodes nodes)"
  shows "other_nodes (select_nodes nodes)
           = slice_step (sample_rate (length (same_ip_nodes nodes))) (same_ip_nodes nodes)"
proof -
  let ?sel = "slice_step (sample_rate (length (same_ip_nodes nodes))) (same_ip_nodes nodes)"
  have "filter (\<lambda>n. \<not> is_priority n) ?sel = ?sel"
    using sampled_not_priority by (auto simp: filter_id_conv)
  then show ?thesis by (simp add: select_nodes_big[OF assms] other_nodes_def)
qed

lemma filter_sub_priority:
  assumes "\<And>n. P n \<Longrightarrow> is_priority n"
  shows "filter P (select_nodes nodes) = filter P nodes"
proof -
  have "filter P xs = filter P (filter is_priority xs)" for xs :: "'a gnode list"
    using assms by (auto intro: filter_cong)
  then show ?thesis by (metis filter_priority_select)
qed

lemma smart_optimize_network_nodes:
  "gd_nodes (smart_optimize_network g) = select_nodes (gd_nodes g)"
  by (simp add: smart_optimize_network_def Let_def)

lemma smart_optimize_network_links:
  "gd_links (smart_optimize_network g)
     = filter (link_closed (gd_nodes (smart_optimize_network g))) (gd_links g)"
  by (simp add: smart_optimize_network_def Let_def link_closed_def[abs_def] node_ids_def)

lemma filter_map_all: "(\<And>x. P (f x)) \<Longrightarrow> filter P (map f xs) = map f xs"
  by (induction xs) auto

lemma filter_map_none: "(\<And>x. \<not> P (f x)) \<Longrightarrow> filter P (map f xs) = []"
  by (induction xs) auto

lemma slice_step_map: "slice_step k (map f xs) = map f (slice_step k xs)"
  by (induction k xs rule: slice_step.induct) (simp_all add: drop_map)

lemma slice_index_bound:
  assumes "0 < k"
  shows "i < (n + k - 1) div k \<longleftrightarrow> i * k < (n::nat)"
proof -
  have "i < (n + k - 1) div k \<longleftrightarrow> Suc i \<le> (n + k - 1) div k" by auto
  also have "\<dots> \<longleftrightarrow> Suc i * k \<le> n + k - 1"
    using assms by (simp only: less_eq_div_iff_mult_less_eq)
  also have "\<dots> \<longleftrightarrow> i * k < n" using assms by (cases k) auto
  finally show ?thesis .
qed

lemma in_slice_step_upt:
  assumes "0 < k"
  shows "j \<in> set (slice_step k [0..<n]) \<longleftrightarrow> j < n \<and> k dvd j"
proof
  assume "j \<in> set (slice_step k [0..<n])"
  then obtain i where i: "i < length (slice_step k [0..<n])" and j: "slice_step k [0..<n] ! i = j"
    by (auto simp: in_set_conv_nth)
  from i have "i < (n + k - 1) div k" by (simp add: length_slice_step[OF assms])
  then have lt: "i * k < n" by (simp only: slice_index_bound[OF assms])
  from nth_slice_step[OF assms i] j have "j = [0..<n] ! (i * k)" by simp
  with lt show "j < n \<and> k dvd j" by simp
next
  assume a: "j < n \<and> k dvd j"
  then obtain i where ik: "j = i * k" by (auto simp: dvd_def mult.commute)
  have "i < (n + k - 1) div k"
    using a ik by (simp only: slice_index_bound[OF assms])
  then have i: "i < length (slice_step k [0..<n])" by (simp add: length_slice_step[OF assms])
  from nth_slice_step[OF assms i] have "slice_step k [0..<n] ! i = j" using a ik by simp
  with i show "j \<in> set (slice_step k [0..<n])" by (metis nth_mem)
qed

lemma same_ip_node_other: "\<not> is_priority (same_ip_node i)"
  by (simp add: same_ip_node_def domain_node_def is_priority_def domain_type_of_def)

lemma same_ip_node_raw: "n_domain_type (same_ip_node i) = Some ''same_ip_domain''"
  by (simp add: same_ip_node_def domain_node_def)

lemma lookalike_node_priority: "is_priority (lookalike_node i)"
  by (simp add: lookalike_node_def domain_node_def is_priority_def domain_type_of_def)

lemma lookalike_node_lookalike: "is_lookalike (lookalike_node i)"
  by (simp add: lookalike_node_def domain_node_def is_lookalike_def domain_type_of_def)

lemma source_node_priority: "is_priority (domain_node ''source_domain'' ident)"
  by (simp add: domain_node_def is_priority_def domain_type_of_def)

lemma crypto_node_priority: "is_priority (crypto_node ident)"
  by (simp add: crypto_node_def is_priority_def)

lemma other_nodes_example:
  "other_nodes (gd_nodes selector_example) = map same_ip_node [0..<2001]"
  by (simp add: selector_example_def other_nodes_def source_node_priority crypto_node_priority
        filter_map_all same_ip_node_other)

lemma same_ip_nodes_example:
  "same_ip_nodes (gd_nodes selector_example) = map same_ip_node [0..<2001]"
  unfolding same_ip_nodes_def other_nodes_example
  by (simp add: filter_map_all same_ip_node_raw)

lemma sample_rate_2001: "sample_rate 2001 = 2"
  by (simp add: sample_rate_def target_same_ip_def)

lemma select_nodes_example:
  "select_nodes (gd_nodes selector_example)
     = [domain_node ''source_domain'' ''source.com'', crypto_node ''1A2b3C'']
       @ map same_ip_node (slice_step 2 [0..<2001])"
proof -
  have "1500 < length (other_nodes (gd_nodes selector_example))"
    unfolding other_nodes_example by simp
  from select_nodes_big[OF this] show ?thesis
    unfolding same_ip_nodes_example
    by (simp add: sample_rate_2001 slice_step_map)
       (simp add: selector_example_def source_node_priority crypto_node_priority
          filter_map_none same_ip_node_other)
qed

lemma node_ids_example:
  "node_ids (select_nodes (gd_nodes selector_example))
     = {''source.com'', ''1A2b3C''} \<union> {CHR ''h'' # replicate j CHR ''x'' | j. j < 2001 \<and> even j}"
  unfolding select_nodes_example node_ids_def
  by (auto simp: in_slice_step_upt domain_node_def crypto_node_def same_ip_node_def image_iff)

lemma same_ip_id_in_example:
  "CHR ''h'' # replicate i CHR ''x'' \<in> node_ids (select_nodes (gd_nodes selector_example))
     \<longleftrightarrow> i < 2001 \<and> even i"
  unfolding node_ids_example by auto

lemma example_large: "1000 < length (gd_nodes selector_example)"
  by (simp add: selector_example_def)

lemma example_optimized_nodes:
  "gd_nodes (optimized_data selector_example) = select_nodes (gd_nodes selector_example)"
  using example_large by (simp add: optimized_data_def smart_optimize_network_nodes)

lemma same_ip_node_not_lookalike: "\<not> is_lookalike (same_ip_node i)"
  by (simp add: same_ip_node_def domain_node_def is_lookalike_def domain_type_of_def)

lemma other_nodes_cap: "other_nodes cap_example = map same_ip_node [0..<1501]"
  by (simp add: cap_example_def other_nodes_def filter_map_all filter_map_none
        same_ip_node_other lookalike_node_priority)

lemma same_ip_nodes_cap: "same_ip_nodes cap_example = map same_ip_node [0..<1501]"
  unfolding same_ip_nodes_def other_nodes_cap by (simp add: filter_map_all same_ip_node_raw)

lemma sample_rate_1501: "sample_rate 1501 = 1"
  by (simp add: sample_rate_def target_same_ip_def)

text \<open>
  Claim C1: when the graph has more than 1000 nodes, the links of the reduced data are
  the input links whose two endpoint identifiers are identifiers of retained nodes, in
  the input order: a link is in the output if and only if it is an input link and both
  its endpoints are in the output node set. In particular no output link dangles.
\<close>

theorem selected_links_closed:
  assumes "1000 < length (gd_nodes g)"
  shows "gd_links (optimized_data g)
           = filter (link_closed (gd_nodes (optimized_data g))) (gd_links g)
         \<and> (l \<in> set (gd_links (optimized_data g))
              \<longleftrightarrow> l \<in> set (gd_links g)
                  \<and> endpoint_id (l_source l) \<in> node_ids (gd_nodes (optimized_data g))
                  \<and> endpoint_id (l_target l) \<in> node_ids (gd_nodes (optimized_data g)))"
proof -
  have o: "optimized_data g = smart_optimize_network g"
    using assms by (simp add: optimized_data_def)
  have 1: "gd_links (optimized_data g)
           = filter (link_closed (gd_nodes (optimized_data g))) (gd_links g)"
    unfolding o by (rule smart_optimize_network_links)
  have "l \<in> set (gd_links (optimized_data g))
          \<longleftrightarrow> l \<in> set (gd_links g) \<and> link_closed (gd_nodes (optimized_data g)) l"
    by (subst 1) simp
  with 1 show ?thesis by (simp add: link_closed_def)
qed

theorem selected_links_closed_witness:
  "1000 < length (gd_nodes selector_example)
   \<and> \<lparr>l_source = Ident ''source.com'', l_target = Ident ''1A2b3C'', l_attrs = ()\<rparr>
        \<in> set (gd_links (optimized_data selector_example))
   \<and> \<lparr>l_source = Ident ''source.com'', l_target = NodeObj (same_ip_node 2), l_attrs = ()\<rparr>
        \<in> set (gd_links (optimized_data selector_example))
   \<and> \<lparr>l_source = Ident ''source.com'', l_target = Ident ''hx'', l_attrs = ()\<rparr>
        \<in> set (gd_links selector_example)
   \<and> \<lparr>l_source = Ident ''source.com'', l_target = Ident ''hx'', l_attrs = ()\<rparr>
        \<notin> set (gd_links (optimized_data selector_example))"
proof -
  let ?ids = "node_ids (gd_nodes (optimized_data selector_example))"
  have src: "''source.com'' \<in> ?ids" and cry: "''1A2b3C'' \<in> ?ids"
    unfolding example_optimized_nodes node_ids_example by simp_all
  have s2: "n_id (same_ip_node 2) \<in> ?ids"
    using same_ip_id_in_example[of 2]
    by (simp add: example_optimized_nodes same_ip_node_def domain_node_def)
  have s1: "''hx'' \<notin> ?ids"
    using same_ip_id_in_example[of 1] by (simp add: example_optimized_nodes)
  have links: "gd_links selector_example =
        [\<lparr>l_source = Ident ''source.com'', l_target = Ident ''1A2b3C'', l_attrs = ()\<rparr>,
         \<lparr>l_source = Ident ''source.com'', l_target = Ident ''hx'', l_attrs = ()\<rparr>,
         \<lparr>l_source = Ident ''source.com'', l_target = NodeObj (same_ip_node 2), l_attrs = ()\<rparr>]"
    by (simp add: selector_example_def)
  note iff = selected_links_closed[OF example_large, THEN conjunct2]
  show ?thesis
    using example_large src cry s1 s2
      iff[of "\<lparr>l_source = Ident ''source.com'', l_target = Ident ''1A2b3C'', l_attrs = ()\<rparr>"]
      iff[of "\<lparr>l_source = Ident ''source.com'', l_target = NodeObj (same_ip_node 2), l_attrs = ()\<rparr>"]
      iff[of "\<lparr>l_source = Ident ''source.com'', l_target = Ident ''hx'', l_attrs = ()\<rparr>"]
    unfolding links by simp
qed

text \<open>
  Claim C5: when the selector runs (more than 1000 nodes), every node whose
  \<open>domain_type\<close> (or, failing that, \<open>node_type\<close>) is \<open>source_domain\<close> and every node of
  type \<open>crypto\<close> is in the reduced node list; these nodes are retained with their
  multiplicity and order.
\<close>

theorem source_and_crypto_retained:
  assumes "1000 < length (gd_nodes g)"
    and "node \<in> set (gd_nodes g)"
    and "domain_type_of node = ''source_domain'' \<or> n_type node = Some ''crypto''"
  shows "node \<in> set (gd_nodes (optimized_data g))
         \<and> filter is_source_or_crypto (gd_nodes (optimized_data g))
             = filter is_source_or_crypto (gd_nodes g)"
proof -
  have o: "gd_nodes (optimized_data g) = select_nodes (gd_nodes g)"
    using assms(1) by (simp add: optimized_data_def smart_optimize_network_nodes)
  have f: "filter is_source_or_crypto (select_nodes (gd_nodes g))
             = filter is_source_or_crypto (gd_nodes g)"
    by (rule filter_sub_priority) (auto simp: is_source_or_crypto_def is_priority_def)
  have "node \<in> set (filter is_source_or_crypto (gd_nodes g))"
    using assms(2,3) by (simp add: is_source_or_crypto_def)
  then have "node \<in> set (filter is_source_or_crypto (select_nodes (gd_nodes g)))"
    by (simp only: f)
  then have "node \<in> set (select_nodes (gd_nodes g))" by simp
  with f show ?thesis by (simp add: o)
qed

theorem source_and_crypto_retained_witness:
  "1000 < length (gd_nodes selector_example)
   \<and> domain_node ''source_domain'' ''source.com'' \<in> set (gd_nodes selector_example)
   \<and> domain_type_of (domain_node ''source_domain'' ''source.com'') = ''source_domain''
   \<and> domain_node ''source_domain'' ''source.com'' \<in> set (gd_nodes (optimized_data selector_example))
   \<and> crypto_node ''1A2b3C'' \<in> set (gd_nodes selector_example)
   \<and> n_type (crypto_node ''1A2b3C'') = Some ''crypto''
   \<and> crypto_node ''1A2b3C'' \<in> set (gd_nodes (optimized_data selector_example))
   \<and> length (gd_nodes (optimized_data selector_example)) = 1003"
proof -
  have a: "domain_node ''source_domain'' ''source.com'' \<in> set (gd_nodes selector_example)"
    and b: "crypto_node ''1A2b3C'' \<in> set (gd_nodes selector_example)"
    by (simp_all add: selector_example_def)
  have c: "domain_type_of (domain_node ''source_domain'' ''source.com'') = ''source_domain''"
    by (simp add: domain_node_def domain_type_of_def)
  have d: "n_type (crypto_node ''1A2b3C'') = Some ''crypto''"
    by (simp add: crypto_node_def)
  have e: "length (gd_nodes (optimized_data selector_example)) = 1003"
    unfolding example_optimized_nodes select_nodes_example
    by (simp add: length_slice_step)
  from source_and_crypto_retained[OF example_large a, THEN conjunct1]
       source_and_crypto_retained[OF example_large b, THEN conjunct1]
       example_large a b c d e
  show ?thesis by blast
qed

text \<open>
  Claim C6, as the code has it. When at most 1500 nodes are not priority nodes, all of
  them are kept, in order. When more than 1500 are not, every lookalike node is retained
  (lookalike nodes are priority nodes; there is no cap), and of the other nodes only
  those whose \<open>domain_type\<close> is \<open>same_ip_domain\<close> survive, thinned to the positions
  \<open>0, N, 2N, ...\<close> of their list with \<open>N = max(1, count div target)\<close>, where \<open>target\<close> is
  1000 for more than 2000 such nodes and 1200 otherwise. The result is a function of the
  input list alone.
\<close>

theorem select_nodes_policy:
  "(length (other_nodes nodes) \<le> 1500 \<longrightarrow>
      other_nodes (select_nodes nodes) = other_nodes nodes
      \<and> filter is_priority (select_nodes nodes) = filter is_priority nodes)
   \<and> (1500 < length (other_nodes nodes) \<longrightarrow>
        filter is_lookalike (select_nodes nodes) = filter is_lookalike nodes
        \<and> other_nodes (select_nodes nodes)
            = slice_step (sample_rate (length (same_ip_nodes nodes))) (same_ip_nodes nodes)
        \<and> sample_rate (length (same_ip_nodes nodes))
            = max 1 (length (same_ip_nodes nodes)
                     div (if 2000 < length (same_ip_nodes nodes) then 1000 else 1200))
        \<and> length (other_nodes (select_nodes nodes))
            = (length (same_ip_nodes nodes) + sample_rate (length (same_ip_nodes nodes)) - 1)
              div sample_rate (length (same_ip_nodes nodes))
        \<and> (\<forall>i < length (other_nodes (select_nodes nodes)).
              other_nodes (select_nodes nodes) ! i
                = same_ip_nodes nodes ! (i * sample_rate (length (same_ip_nodes nodes)))))"
proof (intro conjI impI)
  assume "length (other_nodes nodes) \<le> 1500"
  then show "other_nodes (select_nodes nodes) = other_nodes nodes"
    by (rule filter_other_select_small)
next
  show "filter is_priority (select_nodes nodes) = filter is_priority nodes"
    by (rule filter_priority_select)
next
  show "filter is_lookalike (select_nodes nodes) = filter is_lookalike nodes"
    by (rule filter_sub_priority) (simp add: is_lookalike_def is_priority_def)
next
  assume b: "1500 < length (other_nodes nodes)"
  show "other_nodes (select_nodes nodes)
          = slice_step (sample_rate (length (same_ip_nodes nodes))) (same_ip_nodes nodes)"
    by (rule filter_other_select_big[OF b])
  show "length (other_nodes (select_nodes nodes))
          = (length (same_ip_nodes nodes) + sample_rate (length (same_ip_nodes nodes)) - 1)
            div sample_rate (length (same_ip_nodes nodes))"
    unfolding filter_other_select_big[OF b] by (rule length_slice_step[OF sample_rate_pos])
  show "\<forall>i < length (other_nodes (select_nodes nodes)).
          other_nodes (select_nodes nodes) ! i
            = same_ip_nodes nodes ! (i * sample_rate (length (same_ip_nodes nodes)))"
    unfolding filter_other_select_big[OF b] using nth_slice_step[OF sample_rate_pos] by blast
next
  show "sample_rate (length (same_ip_nodes nodes))
          = max 1 (length (same_ip_nodes nodes)
                   div (if 2000 < length (same_ip_nodes nodes) then 1000 else 1200))"
    by (simp add: sample_rate_def target_same_ip_def)
qed

theorem select_nodes_policy_witness:
  "length (other_nodes small_example) \<le> 1500
   \<and> other_nodes (select_nodes small_example) = [same_ip_node 0]
   \<and> 1500 < length (other_nodes (gd_nodes selector_example))
   \<and> sample_rate (length (same_ip_nodes (gd_nodes selector_example))) = 2
   \<and> length (other_nodes (select_nodes (gd_nodes selector_example))) = 1001
   \<and> other_nodes (select_nodes (gd_nodes selector_example)) ! 3 = same_ip_node 6"
proof -
  have small: "other_nodes small_example = [same_ip_node 0]"
    by (simp add: small_example_def other_nodes_def source_node_priority
          lookalike_node_priority same_ip_node_other)
  then have s: "length (other_nodes small_example) \<le> 1500" by simp
  have big: "1500 < length (other_nodes (gd_nodes selector_example))"
    unfolding other_nodes_example by simp
  note p1 = select_nodes_policy[of small_example, THEN conjunct1, rule_format, OF s]
  note p2 = select_nodes_policy[of "gd_nodes selector_example", THEN conjunct2, rule_format, OF big]
  have r: "sample_rate (length (same_ip_nodes (gd_nodes selector_example))) = 2"
    unfolding same_ip_nodes_example by (simp add: sample_rate_2001)
  have len: "length (other_nodes (select_nodes (gd_nodes selector_example))) = 1001"
    using p2 unfolding r by (simp add: same_ip_nodes_example length_slice_step)
  then have "3 < length (other_nodes (select_nodes (gd_nodes selector_example)))" by simp
  with p2 have "other_nodes (select_nodes (gd_nodes selector_example)) ! 3
                  = same_ip_nodes (gd_nodes selector_example) ! (3 * 2)"
    unfolding r by blast
  then have n: "other_nodes (select_nodes (gd_nodes selector_example)) ! 3 = same_ip_node 6"
    unfolding same_ip_nodes_example by simp
  from p1 small s big r len n show ?thesis by simp
qed

text \<open>
  Claim C6 as stated fails on 500 lookalike and 1501 same-IP nodes: all 500 lookalike
  nodes are retained, far more than a cap of about 100, and the stride is
  \<open>1501 div 1200 = 1\<close>, so all 1501 same-IP nodes are kept, where a stride of
  \<open>ceil(1501 / target) = 2\<close> would keep 751.
\<close>

theorem select_nodes_policy_counterexample:
  "length (other_nodes cap_example) = 1501
   \<and> length (filter is_lookalike (select_nodes cap_example)) = 500
   \<and> length (same_ip_nodes cap_example) = 1501
   \<and> other_nodes (select_nodes cap_example) = same_ip_nodes cap_example
   \<and> spec_stride 1501 1200 = 2 \<and> spec_stride 1501 1000 = 2
   \<and> length (slice_step (spec_stride 1501 1200) (same_ip_nodes cap_example)) = 751"
proof -
  have big: "1500 < length (other_nodes cap_example)"
    unfolding other_nodes_cap by simp
  have "filter is_lookalike (select_nodes cap_example) = filter is_lookalike cap_example"
    by (rule filter_sub_priority) (simp add: is_lookalike_def is_priority_def)
  also have "\<dots> = map lookalike_node [0..<500]"
    by (simp add: cap_example_def filter_map_all filter_map_none lookalike_node_lookalike
          same_ip_node_not_lookalike)
  finally have l: "length (filter is_lookalike (select_nodes cap_example)) = 500" by simp
  have o: "other_nodes (select_nodes cap_example) = same_ip_nodes cap_example"
    unfolding filter_other_select_big[OF big]
    by (simp add: same_ip_nodes_cap sample_rate_1501 slice_step_one)
  have st: "spec_stride 1501 1200 = 2" "spec_stride 1501 1000 = 2"
    by (simp_all add: spec_stride_def)
  have "length (slice_step 2 (same_ip_nodes cap_example)) = 751"
    by (simp add: length_slice_step same_ip_nodes_cap)
  with l o st show ?thesis by (simp add: other_nodes_cap same_ip_nodes_cap)
qed

section \<open>The graph assembler\<close>

lemma reg_step_refl: "reg_step P reg reg"
  by (simp add: reg_step_def)

lemma reg_step_trans:
  "reg_step P a b \<Longrightarrow> reg_step P b c \<Longrightarrow> reg_step P a c"
  unfolding reg_step_def by (metis option.exhaust)

lemma reg_step_update:
  "map_of reg k = None \<Longrightarrow> P k n \<Longrightarrow> reg_step P reg (AList.update k n reg)"
  by (auto simp: reg_step_def update_conv')

lemma builder_step_refl: "builder_step P b b"
  by (simp add: builder_step_def reg_step_refl)

lemma builder_step_trans:
  "builder_step P a b \<Longrightarrow> builder_step P b c \<Longrightarrow> builder_step P a c"
  unfolding builder_step_def using reg_step_trans prefix_order.order_trans by blast

lemma registry_keys_update:
  "registry_keys (AList.update k n reg) = insert k (registry_keys reg)"
  by (simp add: registry_keys_def dom_update)

lemma registry_keys_map_of: "k \<in> registry_keys reg \<longleftrightarrow> map_of reg k \<noteq> None"
  by (simp add: registry_keys_def map_of_eq_None_iff)

subsection \<open>The graph operations\<close>

lemma g_edges_add_node [simp]: "g_edges (graph_add_node n g) = g_edges g"
  by (simp add: graph_add_node_def)

lemma set_g_nodes_add_node [simp]: "set (g_nodes (graph_add_node n g)) = insert n (set (g_nodes g))"
  by (auto simp: graph_add_node_def)

lemma distinct_g_nodes_add_node [simp]:
  "distinct (g_nodes (graph_add_node n g)) = distinct (g_nodes g)"
  by (auto simp: graph_add_node_def)

lemma set_g_nodes_add_edge [simp]:
  "set (g_nodes (graph_add_edge u v g)) = insert u (insert v (set (g_nodes g)))"
  by (auto simp: graph_add_edge_def Let_def)

lemma distinct_g_nodes_add_edge [simp]:
  "distinct (g_nodes (graph_add_edge u v g)) = distinct (g_nodes g)"
  by (auto simp: graph_add_edge_def Let_def)

lemma upair_mem:
  "{u, v} \<in> upair ` set es \<longleftrightarrow> (u, v) \<in> set es \<or> (v, u) \<in> set es"
proof
  assume "{u, v} \<in> upair ` set es"
  then obtain a b where ab: "(a, b) \<in> set es" "{u, v} = {a, b}"
    by (auto simp: upair_def)
  then have "(a = u \<and> b = v) \<or> (a = v \<and> b = u)" by (auto simp: doubleton_eq_iff)
  with ab(1) show "(u, v) \<in> set es \<or> (v, u) \<in> set es" by auto
next
  assume "(u, v) \<in> set es \<or> (v, u) \<in> set es"
  then show "{u, v} \<in> upair ` set es"
    by (auto simp: upair_def image_iff insert_commute intro: bexI[where x = "(u, v)"] bexI[where x = "(v, u)"])
qed

lemma upair_g_edges_add_edge:
  "upair ` set (g_edges (graph_add_edge u v g)) = insert {u, v} (upair ` set (g_edges g))"
  using upair_mem[of u v "g_edges g"]
  by (auto simp: graph_add_edge_def Let_def upair_def)

lemma distinct_g_edges_add_edge:
  "distinct (map upair (g_edges g)) \<Longrightarrow> distinct (map upair (g_edges (graph_add_edge u v g)))"
  using upair_mem[of u v "g_edges g"]
  by (auto simp: graph_add_edge_def Let_def upair_def)


subsection \<open>Get-or-create\<close>

lemma create_domain_node_fst:
  "fst (create_domain_node nodes d t m)
     = AList.update d (snd (create_domain_node nodes d t m)) nodes"
  by (simp add: create_domain_node_def Let_def)

lemma create_domain_node_id [simp]: "nd_id (snd (create_domain_node nodes d t m)) = d"
  by (simp add: create_domain_node_def Let_def)

lemma create_domain_node_type [simp]:
  "nd_type (snd (create_domain_node nodes d t m)) = ''domain''"
  by (simp add: create_domain_node_def Let_def)

lemma create_domain_node_eq:
  "create_domain_node nodes d t m = (nodes', n) \<Longrightarrow> nodes' = AList.update d n nodes"
  using create_domain_node_fst[of nodes d t m] by simp

lemma create_or_get_domain_node_cases:
  assumes "create_or_get_domain_node b d t m = (b', n)"
  shows "(map_of (node_manager b) d = Some n \<and> b' = b)
         \<or> (map_of (node_manager b) d = None
            \<and> n = snd (create_domain_node (node_manager b) d t m)
            \<and> b' = b\<lparr>node_manager := AList.update d n (node_manager b)\<rparr>)"
  using assms
  by (auto simp: create_or_get_domain_node_def get_node_def
           split: option.splits prod.splits dest: create_domain_node_eq)

lemma create_crypto_node_cases:
  assumes "create_crypto_node nodes a chain m = Inr (nodes', n)"
  shows "\<exists>ch. chain = Str ch \<and> nodes' = AList.update a n nodes \<and> nd_id n = a
           \<and> nd_type n = ''crypto'' \<and> nd_node_type n = lower ch @ ''_address''
           \<and> nd_size n = ns_size (style_for (lower ch @ ''_address'') btc_address_style)
           \<and> nd_color n = ns_color (style_for (lower ch @ ''_address'') btc_address_style)
           \<and> nd_shape n = ns_shape (style_for (lower ch @ ''_address'') btc_address_style)
           \<and> md_chain (nd_metadata n) = ch
           \<and> md_style (nd_metadata n)
               = style_meta_of (style_for (lower ch @ ''_address'') btc_address_style)"
  using assms by (cases chain) (auto simp: create_crypto_node_def Let_def)


lemma create_or_get_crypto_node_cases:
  assumes "create_or_get_crypto_node b a chain m = Inr (b', n)"
  shows "(map_of (node_manager b) a = Some n \<and> b' = b)
         \<or> (map_of (node_manager b) a = None
            \<and> create_crypto_node (node_manager b) a chain m
                = Inr (AList.update a n (node_manager b), n)
            \<and> b' = b\<lparr>node_manager := AList.update a n (node_manager b)\<rparr>)"
proof (cases "map_of (node_manager b) a")
  case (Some x)
  with assms show ?thesis by (simp add: create_or_get_crypto_node_def get_node_def)
next
  case None
  with assms obtain nodes' where c: "create_crypto_node (node_manager b) a chain m = Inr (nodes', n)"
    and b': "b' = b\<lparr>node_manager := nodes'\<rparr>"
    by (auto simp: create_or_get_crypto_node_def get_node_def split: sum.splits)
  from create_crypto_node_cases[OF c] have "nodes' = AList.update a n (node_manager b)" by blast
  with None c b' show ?thesis by simp
qed


subsection \<open>Relationships\<close>

lemma create_domain_relationship_cases:
  assumes "create_domain_relationship s t r d0 b = b'"
  shows "(normalize_domain (Str d0) = [] \<or> normalize_domain (Str d0) = s) \<and> b' = b
         \<or> (\<exists>b1 n. normalize_domain (Str d0) \<noteq> [] \<and> normalize_domain (Str d0) \<noteq> s
              \<and> create_or_get_domain_node b (normalize_domain (Str d0)) t
                   (domain_metadata r (normalize_domain (Str d0))) = (b1, n)
              \<and> b' = b1\<lparr>edges := edges b1 @ [domain_edge s (normalize_domain (Str d0)) t r],
                        graph := graph_add_edge s (normalize_domain (Str d0)) (graph b1)\<rparr>)"
  using assms
  by (auto simp: create_domain_relationship_def domain_edge_def Let_def
           split: prod.splits if_splits)

lemma create_crypto_relationship_cases:
  assumes "create_crypto_relationship s chain r a b = Inr b'"
  shows "a = [] \<and> b' = b
         \<or> (\<exists>b1 n. a \<noteq> []
              \<and> create_or_get_crypto_node b a chain (crypto_metadata s r) = Inr (b1, n)
              \<and> b' = b1\<lparr>edges := edges b1 @ [crypto_edge s a chain r],
                        graph := graph_add_edge s a (graph b1)\<rparr>)"
  using assms
  by (auto simp: create_crypto_relationship_def crypto_edge_def crypto_metadata_def Let_def
           split: prod.splits if_splits sum.splits)



subsection \<open>The invariant is kept\<close>

lemma builder_inv_update:
  assumes "builder_inv b" "map_of (node_manager b) k = None" "nd_id n = k"
  shows "builder_inv (b\<lparr>node_manager := AList.update k n (node_manager b)\<rparr>)"
  using assms
  by (auto simp: builder_inv_def distinct_update update_conv' registry_keys_update)

lemma builder_inv_add_edge:
  assumes "builder_inv b" "s \<in> registry_keys (node_manager b)" "d \<in> registry_keys (node_manager b)"
    and "e_source e = s" "e_target e = d" "e_chain e = None \<Longrightarrow> s \<noteq> d"
  shows "builder_inv (b\<lparr>edges := edges b @ [e], graph := graph_add_edge s d (graph b)\<rparr>)"
  using assms
  by (auto simp: builder_inv_def upair_g_edges_add_edge distinct_g_edges_add_edge edge_pair_def)

lemma builder_step_update:
  assumes "map_of (node_manager b) k = None" "P k n"
  shows "builder_step P b (b\<lparr>node_manager := AList.update k n (node_manager b)\<rparr>)"
  using assms by (simp add: builder_step_def reg_step_update)

lemma builder_step_add_edge:
  "builder_step P b (b\<lparr>edges := edges b @ [e], graph := g\<rparr>)"
  by (simp add: builder_step_def reg_step_refl)

lemma builder_step_keys:
  "builder_step P b b' \<Longrightarrow> registry_keys (node_manager b) \<subseteq> registry_keys (node_manager b')"
  unfolding builder_step_def reg_step_def registry_keys_map_of subset_iff by (metis option.exhaust)

lemma counters_update [simp]:
  "processed_rows (b\<lparr>node_manager := x\<rparr>) = processed_rows b"
  "skipped_rows (b\<lparr>node_manager := x\<rparr>) = skipped_rows b"
  by simp_all

lemma create_or_get_domain_node_step:
  assumes c: "create_or_get_domain_node b d t m = (b', n)"
    and inv: "builder_inv b"
    and dom_ok: "\<And>nodes d t m. P d (snd (create_domain_node nodes d t m))"
  shows "builder_inv b' \<and> builder_step P b b' \<and> d \<in> registry_keys (node_manager b')
         \<and> processed_rows b' = processed_rows b \<and> skipped_rows b' = skipped_rows b"
proof -
  from create_or_get_domain_node_cases[OF c] show ?thesis
  proof (elim disjE conjE)
    assume "map_of (node_manager b) d = Some n" "b' = b"
    with inv show ?thesis by (simp add: builder_step_refl registry_keys_map_of)
  next
    assume a: "map_of (node_manager b) d = None"
      "n = snd (create_domain_node (node_manager b) d t m)"
      "b' = b\<lparr>node_manager := AList.update d n (node_manager b)\<rparr>"
    have "nd_id n = d" "P d n" using a(2) dom_ok by simp_all
    with a(1,3) inv show ?thesis
      by (simp add: builder_inv_update builder_step_update registry_keys_update)
  qed
qed

lemma create_or_get_crypto_node_step:
  assumes c: "create_or_get_crypto_node b a chain m = Inr (b', n)"
    and inv: "builder_inv b"
    and cry_ok: "\<And>nodes a m nodes' n. create_crypto_node nodes a chain m = Inr (nodes', n) \<Longrightarrow> P a n"
  shows "builder_inv b' \<and> builder_step P b b' \<and> a \<in> registry_keys (node_manager b')
         \<and> processed_rows b' = processed_rows b \<and> skipped_rows b' = skipped_rows b"
proof -
  from create_or_get_crypto_node_cases[OF c] show ?thesis
  proof (elim disjE conjE)
    assume "map_of (node_manager b) a = Some n" "b' = b"
    with inv show ?thesis by (simp add: builder_step_refl registry_keys_map_of)
  next
    assume x: "map_of (node_manager b) a = None"
      "create_crypto_node (node_manager b) a chain m = Inr (AList.update a n (node_manager b), n)"
      "b' = b\<lparr>node_manager := AList.update a n (node_manager b)\<rparr>"
    have "nd_id n = a" using create_crypto_node_cases[OF x(2)] by blast
    moreover have "P a n" using cry_ok[OF x(2)] .
    ultimately show ?thesis using x(1,3) inv
      by (simp add: builder_inv_update builder_step_update registry_keys_update)
  qed
qed

lemma create_domain_relationship_step:
  assumes inv: "builder_inv b" and src: "s \<in> registry_keys (node_manager b)"
    and dom_ok: "\<And>nodes d t m. P d (snd (create_domain_node nodes d t m))"
  shows "builder_inv (create_domain_relationship s t r d0 b)
         \<and> builder_step P b (create_domain_relationship s t r d0 b)
         \<and> processed_rows (create_domain_relationship s t r d0 b) = processed_rows b
         \<and> skipped_rows (create_domain_relationship s t r d0 b) = skipped_rows b"
proof -
  let ?d = "normalize_domain (Str d0)"
  from create_domain_relationship_cases[of s t r d0 b, OF refl]
  have "create_domain_relationship s t r d0 b = b
        \<or> (\<exists>b1 n. ?d \<noteq> s \<and> create_or_get_domain_node b ?d t (domain_metadata r ?d) = (b1, n)
              \<and> create_domain_relationship s t r d0 b
                   = b1\<lparr>edges := edges b1 @ [domain_edge s ?d t r],
                        graph := graph_add_edge s ?d (graph b1)\<rparr>)"
    by blast
  then show ?thesis
  proof (elim disjE conjE exE)
    assume "create_domain_relationship s t r d0 b = b"
    with inv show ?thesis by (simp add: builder_step_refl)
  next
    fix b1 n
    assume ds: "?d \<noteq> s"
      and c: "create_or_get_domain_node b ?d t (domain_metadata r ?d) = (b1, n)"
      and eq: "create_domain_relationship s t r d0 b
                 = b1\<lparr>edges := edges b1 @ [domain_edge s ?d t r],
                      graph := graph_add_edge s ?d (graph b1)\<rparr>"
    have st: "builder_inv b1 \<and> builder_step P b b1 \<and> ?d \<in> registry_keys (node_manager b1)
         \<and> processed_rows b1 = processed_rows b \<and> skipped_rows b1 = skipped_rows b"
      by (rule create_or_get_domain_node_step[OF c inv]) (rule dom_ok)
    from st have s1: "s \<in> registry_keys (node_manager b1)"
      using src builder_step_keys by blast
    have i: "builder_inv (b1\<lparr>edges := edges b1 @ [domain_edge s ?d t r],
                      graph := graph_add_edge s ?d (graph b1)\<rparr>)"
      by (rule builder_inv_add_edge) (use st s1 ds in \<open>auto simp: domain_edge_def\<close>)
    have "builder_step P b1 (b1\<lparr>edges := edges b1 @ [domain_edge s ?d t r],
                      graph := graph_add_edge s ?d (graph b1)\<rparr>)"
      by (rule builder_step_add_edge)
    with st have "builder_step P b (b1\<lparr>edges := edges b1 @ [domain_edge s ?d t r],
                      graph := graph_add_edge s ?d (graph b1)\<rparr>)"
      using builder_step_trans by blast
    with i st show ?thesis unfolding eq by simp
  qed
qed

lemma create_crypto_relationship_step:
  assumes c: "create_crypto_relationship s chain r a b = Inr b'"
    and inv: "builder_inv b" and src: "s \<in> registry_keys (node_manager b)"
    and cry_ok: "\<And>nodes a m nodes' n. create_crypto_node nodes a chain m = Inr (nodes', n) \<Longrightarrow> P a n"
  shows "builder_inv b' \<and> builder_step P b b'
         \<and> processed_rows b' = processed_rows b \<and> skipped_rows b' = skipped_rows b"
proof -
  from create_crypto_relationship_cases[OF c] show ?thesis
  proof (elim disjE conjE exE)
    assume "b' = b"
    with inv show ?thesis by (simp add: builder_step_refl)
  next
    fix b1 n
    assume g: "create_or_get_crypto_node b a chain (crypto_metadata s r) = Inr (b1, n)"
      and eq: "b' = b1\<lparr>edges := edges b1 @ [crypto_edge s a chain r],
                      graph := graph_add_edge s a (graph b1)\<rparr>"
    have st: "builder_inv b1 \<and> builder_step P b b1 \<and> a \<in> registry_keys (node_manager b1)
         \<and> processed_rows b1 = processed_rows b \<and> skipped_rows b1 = skipped_rows b"
      by (rule create_or_get_crypto_node_step[OF g inv]) (rule cry_ok)
    from st have s1: "s \<in> registry_keys (node_manager b1)"
      using src builder_step_keys by blast
    have i: "builder_inv (b1\<lparr>edges := edges b1 @ [crypto_edge s a chain r],
                      graph := graph_add_edge s a (graph b1)\<rparr>)"
      by (rule builder_inv_add_edge) (use st s1 in \<open>simp_all add: crypto_edge_def\<close>)
    have "builder_step P b1 (b1\<lparr>edges := edges b1 @ [crypto_edge s a chain r],
                      graph := graph_add_edge s a (graph b1)\<rparr>)"
      by (rule builder_step_add_edge)
    with st have "builder_step P b (b1\<lparr>edges := edges b1 @ [crypto_edge s a chain r],
                      graph := graph_add_edge s a (graph b1)\<rparr>)"
      using builder_step_trans by blast
    with i st show ?thesis unfolding eq by simp
  qed
qed


subsection \<open>Loops and rows\<close>

lemma step_chain:
  assumes "builder_inv b1 \<and> builder_step P b b1
         \<and> processed_rows b1 = processed_rows b \<and> skipped_rows b1 = skipped_rows b"
    and "builder_inv b2 \<and> builder_step P b1 b2
         \<and> processed_rows b2 = processed_rows b1 \<and> skipped_rows b2 = skipped_rows b1"
  shows "builder_inv b2 \<and> builder_step P b b2
         \<and> processed_rows b2 = processed_rows b \<and> skipped_rows b2 = skipped_rows b"
proof -
  from assms have "builder_step P b b2" by (blast intro: builder_step_trans)
  with assms show ?thesis by simp
qed

lemma fold_domain_relationship_step:
  assumes dom_ok: "\<And>nodes d t m. P d (snd (create_domain_node nodes d t m))"
  shows "builder_inv b \<Longrightarrow> s \<in> registry_keys (node_manager b) \<Longrightarrow>
     builder_inv (fold (create_domain_relationship s t r) ds b)
     \<and> builder_step P b (fold (create_domain_relationship s t r) ds b)
     \<and> processed_rows (fold (create_domain_relationship s t r) ds b) = processed_rows b
     \<and> skipped_rows (fold (create_domain_relationship s t r) ds b) = skipped_rows b"
proof (induction ds arbitrary: b)
  case Nil
  then show ?case by (simp add: builder_step_refl)
next
  case (Cons d ds)
  let ?b1 = "create_domain_relationship s t r d b"
  have st: "builder_inv ?b1 \<and> builder_step P b ?b1
         \<and> processed_rows ?b1 = processed_rows b \<and> skipped_rows ?b1 = skipped_rows b"
    by (rule create_domain_relationship_step[OF Cons.prems]) (rule dom_ok)
  then have i1: "builder_inv ?b1" by simp
  have k1: "s \<in> registry_keys (node_manager ?b1)"
    using st Cons.prems(2) builder_step_keys by blast
  have f: "fold (create_domain_relationship s t r) (d # ds) b
             = fold (create_domain_relationship s t r) ds ?b1" by simp
  show ?case unfolding f by (rule step_chain[OF st Cons.IH[OF i1 k1]])
qed


lemma process_domain_column_step:
  assumes dom_ok: "\<And>nodes d t m. P d (snd (create_domain_node nodes d t m))"
    and inv: "builder_inv b" and src: "s \<in> registry_keys (node_manager b)"
  shows "builder_inv (process_domain_column s col r b)
     \<and> builder_step P b (process_domain_column s col r b)
     \<and> processed_rows (process_domain_column s col r b) = processed_rows b
     \<and> skipped_rows (process_domain_column s col r b) = skipped_rows b"
proof (cases "map_of r col")
  case None
  then have "process_domain_column s col r b = b" by (simp add: process_domain_column_def)
  with inv show ?thesis by (simp add: builder_step_refl)
next
  case (Some v)
  show ?thesis
  proof (cases "isna v")
    case True
    with Some have "process_domain_column s col r b = b" by (simp add: process_domain_column_def)
    with inv show ?thesis by (simp add: builder_step_refl)
  next
    case False
    with Some have e: "process_domain_column s col r b
                      = fold (create_domain_relationship s col r) (parse_domain_list v) b"
      by (simp add: process_domain_column_def)
    show ?thesis unfolding e
      by (rule fold_domain_relationship_step[OF _ inv src]) (rule dom_ok)
  qed
qed

lemma crypto_loop_step:
  assumes cry_ok: "\<And>nodes a m nodes' n. create_crypto_node nodes a chain m = Inr (nodes', n) \<Longrightarrow> P a n"
  shows "crypto_loop s chain r addrs b = (b', err) \<Longrightarrow> builder_inv b \<Longrightarrow>
     s \<in> registry_keys (node_manager b) \<Longrightarrow>
     builder_inv b' \<and> builder_step P b b'
     \<and> processed_rows b' = processed_rows b \<and> skipped_rows b' = skipped_rows b"
proof (induction addrs arbitrary: b)
  case Nil
  then have "b' = b" by simp
  with Nil show ?case by (simp add: builder_step_refl)
next
  case (Cons a addrs)
  show ?case
  proof (cases "create_crypto_relationship s chain r a b")
    case (Inl e)
    with Cons.prems(1) have "b' = b" by simp
    with Cons.prems(2) show ?thesis by (simp add: builder_step_refl)
  next
    case (Inr b1)
    have st: "builder_inv b1 \<and> builder_step P b b1
         \<and> processed_rows b1 = processed_rows b \<and> skipped_rows b1 = skipped_rows b"
      by (rule create_crypto_relationship_step[OF Inr Cons.prems(2,3)]) (rule cry_ok)
    then have i1: "builder_inv b1" by simp
    have k1: "s \<in> registry_keys (node_manager b1)"
      using st Cons.prems(3) builder_step_keys by blast
    from Inr Cons.prems(1) have l: "crypto_loop s chain r addrs b1 = (b', err)" by simp
    show ?thesis by (rule step_chain[OF st Cons.IH[OF l i1 k1]])
  qed
qed


lemma process_row_no_column:
  "map_of r ''source_domain'' = None \<Longrightarrow> process_row b r = (b, Some (KeyError ''source_domain''))"
  by (simp add: process_row_def)

lemma process_row_empty_source:
  "map_of r ''source_domain'' = Some raw \<Longrightarrow> normalize_domain raw = [] \<Longrightarrow>
     process_row b r = (b, None)"
  by (simp add: process_row_def)

lemma process_row_unfold:
  assumes "map_of r ''source_domain'' = Some raw" and "normalize_domain raw \<noteq> []"
    and "create_or_get_domain_node b (normalize_domain raw) ''source_domain''
           (domain_metadata r (normalize_domain raw)) = (b1, n)"
  shows "process_row b r =
     (case map_of r ''crypto_address'' of
        None \<Rightarrow> (process_domain_column (normalize_domain raw) ''same_ip_domain'' r
                  (process_domain_column (normalize_domain raw) ''lookalike_domain'' r b1), None)
      | Some v \<Rightarrow>
          if isna v
          then (process_domain_column (normalize_domain raw) ''same_ip_domain'' r
                  (process_domain_column (normalize_domain raw) ''lookalike_domain'' r b1), None)
          else crypto_loop (normalize_domain raw) (row_get r ''chain'' (Str ''BTC'')) r
                 (parse_crypto_list v)
                 (process_domain_column (normalize_domain raw) ''same_ip_domain'' r
                    (process_domain_column (normalize_domain raw) ''lookalike_domain'' r b1)))"
  using assms by (simp add: process_row_def Let_def)

lemma process_row_step:
  assumes p: "process_row b r = (b', err)" and inv: "builder_inv b"
    and dom_ok: "\<And>nodes d t m. P d (snd (create_domain_node nodes d t m))"
    and cry_ok: "\<And>nodes a m nodes' n.
        create_crypto_node nodes a (row_get r ''chain'' (Str ''BTC'')) m = Inr (nodes', n) \<Longrightarrow> P a n"
  shows "builder_inv b' \<and> builder_step P b b'
     \<and> processed_rows b' = processed_rows b \<and> skipped_rows b' = skipped_rows b"
proof (cases "map_of r ''source_domain''")
  case None
  from process_row_no_column[OF None, of b] p have "b' = b" by simp
  with inv show ?thesis by (simp add: builder_step_refl)
next
  case (Some raw)
  let ?s = "normalize_domain raw"
  show ?thesis
  proof (cases "?s = []")
    case True
    from process_row_empty_source[OF Some True, of b] p have "b' = b" by simp
    with inv show ?thesis by (simp add: builder_step_refl)
  next
    case False
    obtain b1 n where c: "create_or_get_domain_node b ?s ''source_domain'' (domain_metadata r ?s) = (b1, n)"
      by (cases "create_or_get_domain_node b ?s ''source_domain'' (domain_metadata r ?s)")
    have s1: "builder_inv b1 \<and> builder_step P b b1 \<and> ?s \<in> registry_keys (node_manager b1)
         \<and> processed_rows b1 = processed_rows b \<and> skipped_rows b1 = skipped_rows b"
      by (rule create_or_get_domain_node_step[OF c inv]) (rule dom_ok)
    then have i1: "builder_inv b1" and k1: "?s \<in> registry_keys (node_manager b1)" by simp_all
    let ?b2 = "process_domain_column ?s ''lookalike_domain'' r b1"
    have s2: "builder_inv ?b2 \<and> builder_step P b1 ?b2
         \<and> processed_rows ?b2 = processed_rows b1 \<and> skipped_rows ?b2 = skipped_rows b1"
      by (rule process_domain_column_step[OF _ i1 k1]) (rule dom_ok)
    then have i2: "builder_inv ?b2" by simp
    have k2: "?s \<in> registry_keys (node_manager ?b2)"
      using s2 k1 builder_step_keys by blast
    let ?b3 = "process_domain_column ?s ''same_ip_domain'' r ?b2"
    have s3: "builder_inv ?b3 \<and> builder_step P ?b2 ?b3
         \<and> processed_rows ?b3 = processed_rows ?b2 \<and> skipped_rows ?b3 = skipped_rows ?b2"
      by (rule process_domain_column_step[OF _ i2 k2]) (rule dom_ok)
    then have i3: "builder_inv ?b3" by simp
    have k3: "?s \<in> registry_keys (node_manager ?b3)"
      using s3 k2 builder_step_keys by blast
    have s01: "builder_inv b1 \<and> builder_step P b b1
         \<and> processed_rows b1 = processed_rows b \<and> skipped_rows b1 = skipped_rows b"
      using s1 by simp
    have s03: "builder_inv ?b3 \<and> builder_step P b ?b3
         \<and> processed_rows ?b3 = processed_rows b \<and> skipped_rows ?b3 = skipped_rows b"
      by (rule step_chain[OF step_chain[OF s01 s2] s3])
    note u = process_row_unfold[OF Some False c]
    show ?thesis
    proof (cases "map_of r ''crypto_address''")
      case None
      with u p have "b' = ?b3" by simp
      with s03 show ?thesis by simp
    next
      case (Some v)
      show ?thesis
      proof (cases "isna v")
        case True
        with Some u p have "b' = ?b3" by simp
        with s03 show ?thesis by simp
      next
        case False
        with Some u p have l: "crypto_loop ?s (row_get r ''chain'' (Str ''BTC'')) r
               (parse_crypto_list v) ?b3 = (b', err)" by simp
        have "builder_inv b' \<and> builder_step P ?b3 b'
           \<and> processed_rows b' = processed_rows ?b3 \<and> skipped_rows b' = skipped_rows ?b3"
          by (rule crypto_loop_step[OF _ l i3 k3]) (rule cry_ok)
        from step_chain[OF s03 this] show ?thesis .
      qed
    qed
  qed
qed

subsection \<open>The build loop\<close>

lemma build_step_step:
  assumes inv: "builder_inv b"
  shows "builder_inv (build_step b r) \<and> builder_step (\<lambda>k n. True) b (build_step b r)
         \<and> processed_rows (build_step b r) + skipped_rows (build_step b r)
             = Suc (processed_rows b + skipped_rows b)"
proof -
  obtain b1 err where p: "process_row b r = (b1, err)" by (cases "process_row b r")
  have st: "builder_inv b1 \<and> builder_step (\<lambda>k n. True) b b1
     \<and> processed_rows b1 = processed_rows b \<and> skipped_rows b1 = skipped_rows b"
    by (rule process_row_step[OF p inv]) simp_all
  show ?thesis
  proof (cases err)
    case None
    with p have "build_step b r = b1\<lparr>processed_rows := processed_rows b1 + 1\<rparr>"
      by (simp add: build_step_def)
    with st show ?thesis by (simp add: builder_inv_def builder_step_def)
  next
    case (Some e)
    with p have "build_step b r = b1\<lparr>skipped_rows := skipped_rows b1 + 1\<rparr>"
      by (simp add: build_step_def)
    with st show ?thesis by (simp add: builder_inv_def builder_step_def)
  qed
qed

lemma build_rows_step:
  "builder_inv b \<Longrightarrow>
     builder_inv (build_rows b rows) \<and> builder_step (\<lambda>k n. True) b (build_rows b rows)
     \<and> processed_rows (build_rows b rows) + skipped_rows (build_rows b rows)
         = processed_rows b + skipped_rows b + length rows"
proof (induction rows arbitrary: b)
  case Nil
  then show ?case by (simp add: build_rows_def builder_step_refl)
next
  case (Cons r rows)
  note s1 = build_step_step[OF Cons.prems, of r]
  then have i1: "builder_inv (build_step b r)" by simp
  note s2 = Cons.IH[OF i1]
  have e: "build_rows b (r # rows) = build_rows (build_step b r) rows"
    by (simp add: build_rows_def)
  have "builder_step (\<lambda>k n. True) b (build_rows (build_step b r) rows)"
    using s1 s2 by (blast intro: builder_step_trans)
  with s1 s2 show ?case unfolding e by simp
qed

lemma build_rows_append: "build_rows b (rows1 @ rows2) = build_rows (build_rows b rows1) rows2"
  by (simp add: build_rows_def)

lemma builder_inv_clear: "builder_inv (clear_builder b)"
  by (simp add: builder_inv_def clear_builder_def graph_clear_def registry_keys_def)

lemma fold_add_node:
  "set (g_nodes (fold (\<lambda>node. graph_add_node (f node)) ns g)) = set (g_nodes g) \<union> f ` set ns
   \<and> distinct (g_nodes (fold (\<lambda>node. graph_add_node (f node)) ns g)) = distinct (g_nodes g)
   \<and> g_edges (fold (\<lambda>node. graph_add_node (f node)) ns g) = g_edges g"
  by (induction ns arbitrary: g) auto

lemma registry_ids:
  assumes "builder_inv b"
  shows "map nd_id (get_all_nodes (node_manager b)) = map fst (node_manager b)"
proof -
  have "nd_id (snd p) = fst p" if "p \<in> set (node_manager b)" for p
  proof -
    from assms have d: "distinct (map fst (node_manager b))" by (simp add: builder_inv_def)
    from that have "(fst p, snd p) \<in> set (node_manager b)" by simp
    then have "map_of (node_manager b) (fst p) = Some (snd p)"
      by (rule map_of_is_SomeI[OF d])
    with assms show ?thesis by (simp add: builder_inv_def)
  qed
  then show ?thesis by (simp add: get_all_nodes_def)
qed

lemma add_node_attributes_fields [simp]:
  "node_manager (add_node_attributes_to_graph b) = node_manager b"
  "edges (add_node_attributes_to_graph b) = edges b"
  "processed_rows (add_node_attributes_to_graph b) = processed_rows b"
  "skipped_rows (add_node_attributes_to_graph b) = skipped_rows b"
  by (simp_all add: add_node_attributes_to_graph_def)

lemma add_node_attributes_graph:
  assumes "builder_inv b"
  shows "builder_inv (add_node_attributes_to_graph b)
         \<and> set (g_nodes (graph (add_node_attributes_to_graph b))) = registry_keys (node_manager b)"
proof -
  let ?g = "fold (\<lambda>node. graph_add_node (nd_id node)) (get_all_nodes (node_manager b)) (graph b)"
  have ids: "nd_id ` set (get_all_nodes (node_manager b)) = registry_keys (node_manager b)"
    using registry_ids[OF assms] by (metis registry_keys_def set_map)
  have g: "graph (add_node_attributes_to_graph b) = ?g"
    by (simp add: add_node_attributes_to_graph_def)
  from fold_add_node[of nd_id "get_all_nodes (node_manager b)" "graph b"] ids assms
  show ?thesis unfolding g
    by (auto simp: builder_inv_def add_node_attributes_to_graph_def)
qed

subsection \<open>Counting nodes and edges of the built graph\<close>

lemma built_inv:
  "builder_inv (built b rows)
   \<and> set (g_nodes (graph (built b rows))) = registry_keys (node_manager (built b rows))"
proof -
  have "builder_inv (build_rows (clear_builder b) rows)"
    using build_rows_step[OF builder_inv_clear] by blast
  from add_node_attributes_graph[OF this] show ?thesis by (simp add: built_def)
qed

lemma built_counts:
  "number_of_nodes (graph (built b rows)) = length (node_manager (built b rows))
   \<and> number_of_edges (graph (built b rows)) = distinct_pairs (edges (built b rows))"
proof -
  let ?b = "built b rows"
  from built_inv[of b rows] have inv: "builder_inv ?b"
    and n: "set (g_nodes (graph ?b)) = registry_keys (node_manager ?b)" by simp_all
  have "length (g_nodes (graph ?b)) = card (set (g_nodes (graph ?b)))"
    using inv by (simp add: builder_inv_def distinct_card)
  also have "\<dots> = card (set (map fst (node_manager ?b)))"
    by (simp add: n registry_keys_def)
  also have "\<dots> = length (map fst (node_manager ?b))"
    using inv by (simp only: builder_inv_def distinct_card)
  finally have 1: "number_of_nodes (graph ?b) = length (node_manager ?b)"
    by (simp add: number_of_nodes_def)
  have "length (g_edges (graph ?b)) = length (map upair (g_edges (graph ?b)))" by simp
  also have "\<dots> = card (set (map upair (g_edges (graph ?b))))"
    using inv by (simp only: builder_inv_def distinct_card)
  also have "\<dots> = card (edge_pair ` set (edges ?b))"
    using inv by (simp add: builder_inv_def)
  finally have 2: "number_of_edges (graph ?b) = distinct_pairs (edges ?b)"
    by (simp add: number_of_edges_def distinct_pairs_def)
  from 1 2 show ?thesis ..
qed

lemma distinct_pairs_le: "distinct_pairs es \<le> length es"
  unfolding distinct_pairs_def by (metis card_image_le card_length le_trans List.finite_set)

lemma distinct_pairs_distinct:
  "distinct (map edge_pair es) \<Longrightarrow> distinct_pairs es = length es"
  unfolding distinct_pairs_def by (metis distinct_card length_map set_map)

subsection \<open>What a build keeps\<close>

lemma build_rows_snoc: "build_rows b (rows @ [r]) = build_step (build_rows b rows) r"
  by (simp add: build_rows_def)


lemma build_rows_keeps:
  assumes "builder_inv b"
  shows "(map_of (node_manager b) k = Some n \<longrightarrow> map_of (node_manager (build_rows b rows)) k = Some n)
         \<and> prefix (edges b) (edges (build_rows b rows))
         \<and> skipped_rows b \<le> skipped_rows (build_rows b rows)"
proof -
  have s: "builder_step (\<lambda>k n. True) b (build_rows b rows)"
    using build_rows_step[OF assms] by blast
  have "skipped_rows b \<le> skipped_rows (build_rows b rows)"
  proof (induction rows rule: rev_induct)
    case Nil
    show ?case by (simp add: build_rows_def)
  next
    case (snoc r rows)
    obtain b1 err where p: "process_row (build_rows b rows) r = (b1, err)"
      by (cases "process_row (build_rows b rows) r")
    have i: "builder_inv (build_rows b rows)" using build_rows_step[OF assms] by blast
    have "skipped_rows b1 = skipped_rows (build_rows b rows)"
      using process_row_step[OF p i, of "\<lambda>k n. True"] by simp
    then have "skipped_rows (build_rows b rows) \<le> skipped_rows (build_step (build_rows b rows) r)"
      using p by (cases err) (simp_all add: build_step_def)
    with snoc show ?case unfolding build_rows_snoc by simp
  qed
  with s show ?thesis by (simp add: builder_step_def reg_step_def)
qed

lemma snapshot_fields:
  "snap_nodes (build_graph b rows) = map snd (node_manager (build_rows (clear_builder b) rows))"
  "snap_links (build_graph b rows) = edges (build_rows (clear_builder b) rows)"
  "st_skipped_rows (snap_statistics (build_graph b rows))
     = skipped_rows (build_rows (clear_builder b) rows)"
  "st_processed_rows (snap_statistics (build_graph b rows))
     = processed_rows (build_rows (clear_builder b) rows)"
  by (simp_all add: build_graph_def built_def Let_def get_all_nodes_def generate_statistics_def)

lemma build_rows_inv: "builder_inv (build_rows (clear_builder b) rows)"
  using build_rows_step[OF builder_inv_clear] by blast

lemma map_of_in_values: "map_of reg k = Some n \<Longrightarrow> n \<in> set (map snd reg)"
  by (metis map_of_SomeD set_zip_rightD zip_map_fst_snd)

lemma build_rows_grows:
  assumes "builder_inv b"
  shows "prefix (edges b) (edges (build_rows b rows))
         \<and> skipped_rows b \<le> skipped_rows (build_rows b rows)"
  using build_rows_keeps[OF assms] by blast

lemma build_step_error:
  "process_row b r = (b1, Some err) \<Longrightarrow> build_step b r = b1\<lparr>skipped_rows := skipped_rows b1 + 1\<rparr>"
  by (simp add: build_step_def)

lemma failing_row_partial:
  "snd (process_row (clear_builder new_builder) failing_row) = Some AttributeError
   \<and> map fst (node_manager (fst (process_row (clear_builder new_builder) failing_row)))
       = [''a.com'', ''b.com'']
   \<and> map (\<lambda>e. (e_source e, e_target e)) (edges (fst (process_row (clear_builder new_builder) failing_row)))
       = [(''a.com'', ''b.com'')]"
  by code_simp

subsection \<open>Crypto entities created by a row\<close>

lemma create_crypto_node_entity:
  assumes "create_crypto_node nodes a chain m = Inr (nodes', n)"
  shows "crypto_entity_of chain n"
proof -
  from create_crypto_node_cases[OF assms] obtain ch where ch: "chain = Str ch"
    and f: "nd_node_type n = lower ch @ ''_address''"
     "nd_size n = ns_size (style_for (lower ch @ ''_address'') btc_address_style)"
     "nd_color n = ns_color (style_for (lower ch @ ''_address'') btc_address_style)"
     "nd_shape n = ns_shape (style_for (lower ch @ ''_address'') btc_address_style)"
     "md_chain (nd_metadata n) = ch"
     "md_style (nd_metadata n)
           = style_meta_of (style_for (lower ch @ ''_address'') btc_address_style)"
    by blast
  have "crypto_entity_of (Str ch) n"
    unfolding crypto_entity_of_def cell.case Let_def style_for_def[symmetric]
    using f by (simp only: simp_thms)
  then show ?thesis by (simp only: ch)
qed

lemma node_manager_build_step:
  "node_manager (build_step b r) = node_manager (fst (process_row b r))"
proof (cases "process_row b r")
  case (Pair b1 err)
  then show ?thesis by (cases err) (simp_all add: build_step_def)
qed

lemma new_crypto_entity:
  assumes inv: "builder_inv b"
    and free: "map_of (node_manager b) a = None"
    and new: "map_of (node_manager (build_step b r)) a = Some n"
    and cr: "nd_type n = ''crypto''"
  shows "crypto_entity_of (row_get r ''chain'' (Str ''BTC'')) n"
proof -
  define P where "P = (\<lambda>(k::string) n. nd_type n = ''crypto''
                         \<longrightarrow> crypto_entity_of (row_get r ''chain'' (Str ''BTC'')) n)"
  obtain b1 err where p: "process_row b r = (b1, err)" by (cases "process_row b r")
  have dom: "P d (snd (create_domain_node nodes d t m))" for nodes d t m
    unfolding P_def by simp
  have cry: "P a n" if "create_crypto_node nodes a (row_get r ''chain'' (Str ''BTC'')) m = Inr (nodes', n)"
      for nodes a m nodes' n
    unfolding P_def using create_crypto_node_entity[OF that] by simp
  have "builder_inv b1 \<and> builder_step P b b1
     \<and> processed_rows b1 = processed_rows b \<and> skipped_rows b1 = skipped_rows b"
    by (rule process_row_step[where P = P, OF p inv]) (rule dom, rule cry)
  then have "reg_step P (node_manager b) (node_manager b1)" by (simp add: builder_step_def)
  moreover have "map_of (node_manager b1) a = Some n"
    using new p by (simp add: node_manager_build_step)
  ultimately have "P a n" using free unfolding reg_step_def by blast
  with cr show ?thesis unfolding P_def by simp
qed

lemma crypto_entity_of_Str:
  "crypto_entity_of chain n \<Longrightarrow> \<exists>ch. chain = Str ch"
proof (cases chain)
  case (Str ch)
  then show ?thesis by blast
qed (simp_all only: crypto_entity_of_def cell.case simp_thms)

lemma style_for_fallback: "map_of node_styles (lower ch @ ''_address'') = None \<longrightarrow>
                style_for (lower ch @ ''_address'') btc_address_style = btc_address_style"
  by (simp add: style_for_def)

lemma row_chain_default: "row_get r ''chain'' (Str ''BTC'') = Str ch \<Longrightarrow> map_of r ''chain'' = None \<Longrightarrow> ch = ''BTC''"
  by (simp add: row_get_def)

lemma row_chain_present: "row_get r ''chain'' (Str ''BTC'') = Str ch \<Longrightarrow> map_of r ''chain'' = Some c \<Longrightarrow> c = Str ch"
  by (simp add: row_get_def)

lemma crypto_entity_of_fields:
  assumes "crypto_entity_of (Str ch) n"
  shows "md_chain (nd_metadata n) = ch"
    and "nd_node_type n = lower ch @ ''_address''"
    and "nd_size n = ns_size (style_for (lower ch @ ''_address'') btc_address_style)"
    and "nd_color n = ns_color (style_for (lower ch @ ''_address'') btc_address_style)"
    and "nd_shape n = ns_shape (style_for (lower ch @ ''_address'') btc_address_style)"
    and "md_style (nd_metadata n)
           = style_meta_of (style_for (lower ch @ ''_address'') btc_address_style)"
  using assms
  unfolding crypto_entity_of_def cell.case Let_def style_for_def[symmetric]
  by (simp_all only: simp_thms)

lemma builder_inv_id: "builder_inv b \<Longrightarrow> map_of (node_manager b) k = Some n \<Longrightarrow> nd_id n = k"
  by (simp add: builder_inv_def)

lemma fresh_build: "map_of (node_manager (build_rows (clear_builder new_builder) [])) a = None"
  by (simp add: build_rows_def clear_builder_def)

lemma address_key_not_domain:
  "x @ ''_address'' \<noteq> ''source_domain''"
  "x @ ''_address'' \<noteq> ''lookalike_domain''"
  "x @ ''_address'' \<noteq> ''same_ip_domain''"
proof -
  have s: "\<not> suffix ''_address'' ''source_domain''" "\<not> suffix ''_address'' ''lookalike_domain''"
    "\<not> suffix ''_address'' ''same_ip_domain''"
    by (simp_all add: suffix_to_prefix)
  show "x @ ''_address'' \<noteq> ''source_domain''"
  proof
    assume "x @ ''_address'' = ''source_domain''"
    then have "suffix ''_address'' ''source_domain''" by (metis suffixI)
    with s show False by blast
  qed
  show "x @ ''_address'' \<noteq> ''lookalike_domain''"
  proof
    assume "x @ ''_address'' = ''lookalike_domain''"
    then have "suffix ''_address'' ''lookalike_domain''" by (metis suffixI)
    with s show False by blast
  qed
  show "x @ ''_address'' \<noteq> ''same_ip_domain''"
  proof
    assume "x @ ''_address'' = ''same_ip_domain''"
    then have "suffix ''_address'' ''same_ip_domain''" by (metis suffixI)
    with s show False by blast
  qed
qed

lemma style_for_crypto:
  "style_for (lower ch @ ''_address'') btc_address_style = crypto_style_of ch"
proof -
  let ?k = "lower ch @ ''_address''"
  note nd = address_key_not_domain[of "lower ch"]
  consider (btc) "?k = ''btc_address''" | (eth) "?k = ''eth_address''"
    | (tron) "?k = ''tron_address''"
    | (other) "?k \<noteq> ''btc_address''" "?k \<noteq> ''eth_address''" "?k \<noteq> ''tron_address''"
    by blast
  then show ?thesis
  proof cases
    case btc
    then show ?thesis
      by (simp add: style_for_def node_styles_def crypto_style_of_def btc_address_style_def)
  next
    case eth
    then show ?thesis
      by (simp add: style_for_def node_styles_def crypto_style_of_def)
  next
    case tron
    then show ?thesis
      by (simp add: style_for_def node_styles_def crypto_style_of_def)
  next
    case other
    with nd show ?thesis
      by (simp add: style_for_def node_styles_def crypto_style_of_def btc_address_style_def)
  qed
qed

subsection \<open>The keys of a row are registered\<close>




lemma parse_domain_pieces_eq:
  "parse_domain_pieces ps
     = filter (\<lambda>k. k \<noteq> []) (map (\<lambda>p. normalize_domain (Str (strip p))) ps)"
  by (induction ps) (simp_all add: Let_def)














text \<open>The guard of \<open>_create_domain_relationship\<close>: an edge without a chain tag is no self-loop.\<close>

lemma domain_edges_join_different_keys:
  assumes "e \<in> set (snap_links (build_graph b rows))" and "e_chain e = None"
  shows "e_source e \<noteq> e_target e"
  using build_rows_inv[of b rows] assms
  unfolding snapshot_fields builder_inv_def by blast

section \<open>Claims about the graph assembler\<close>

text \<open>
  Claim C7, as the code has it: a row whose \<open>source_domain\<close> normalizes to the empty
  string returns from \<open>_process_row\<close> at once, without an exception: it creates no node and
  no edge, leaves the graph alone, and is counted in \<open>processed_rows\<close>, not in
  \<open>skipped_rows\<close>, which counts the rows that raise.
\<close>

theorem empty_source_row_is_processed:
  assumes "map_of r ''source_domain'' = Some raw" and "normalize_domain raw = []"
  shows "process_row b r = (b, None)
         \<and> node_manager (build_step b r) = node_manager b
         \<and> edges (build_step b r) = edges b
         \<and> graph (build_step b r) = graph b
         \<and> processed_rows (build_step b r) = processed_rows b + 1
         \<and> skipped_rows (build_step b r) = skipped_rows b"
  using process_row_empty_source[OF assms, of b] by (simp add: build_step_def)

theorem empty_source_row_is_processed_witness:
  "map_of empty_source_row ''source_domain'' = Some (Str ''https://'')
   \<and> normalize_domain (Str ''https://'') = []
   \<and> process_row new_builder empty_source_row = (new_builder, None)
   \<and> processed_rows (build_step new_builder empty_source_row) = 1
   \<and> skipped_rows (build_step new_builder empty_source_row) = 0"
proof -
  have a: "map_of empty_source_row ''source_domain'' = Some (Str ''https://'')"
    by (simp add: empty_source_row_def)
  have b: "normalize_domain (Str ''https://'') = []" by code_simp
  from empty_source_row_is_processed[OF a b, of new_builder] a b
  show ?thesis by (simp add: new_builder_def)
qed

text \<open>
  Claim C7 as stated fails: the row with source \<open>https://\<close> creates nothing, and the
  statistics report one processed row and no skipped row.
\<close>

theorem empty_source_row_counterexample:
  "normalize_domain (Str ''https://'') = []
   \<and> snap_nodes (build_graph new_builder [empty_source_row]) = []
   \<and> snap_links (build_graph new_builder [empty_source_row]) = []
   \<and> st_skipped_rows (snap_statistics (build_graph new_builder [empty_source_row])) = 0
   \<and> st_processed_rows (snap_statistics (build_graph new_builder [empty_source_row])) = 1"
  by code_simp

text \<open>
  Claim C3 at a row whose crypto address is the text of its source domain: the
  domain-to-domain edges are never self-loops (\<open>domain_edges_join_different_keys\<close>), but
  \<open>_create_crypto_relationship\<close> has no guard like the one of
  \<open>_create_domain_relationship\<close>, and the edge list gets an edge from \<open>bc1qxyz\<close> to itself.
\<close>

theorem crypto_self_loop:
  "map (\<lambda>e. (e_source e, e_target e, e_type e)) (snap_links (build_graph new_builder [self_loop_row]))
     = [(''bc1qxyz'', ''bc1qxyz'', ''domain_to_crypto'')]"
  by code_simp

text \<open>
  Claim C8, as the code has it: \<open>network_density\<close> is \<open>2M / (N (N - 1))\<close> for \<open>N > 1\<close> and
  \<open>0\<close> otherwise, where \<open>N\<close> is the node count of the statistics and \<open>M\<close> the number of
  distinct unordered endpoint pairs among the edges (the library graph stores parallel
  edges once). \<open>M\<close> is at most the edge count \<open>E\<close> of the statistics and equals it when no
  two edges join the same pair; four nodes and three such edges give \<open>1/2\<close>.
\<close>

theorem network_density_formula:
  "st_network_density (snap_statistics (build_graph b rows))
     = (if 1 < st_nodes (snap_statistics (build_graph b rows))
        then 2 * of_nat (distinct_pairs (snap_links (build_graph b rows)))
             / (of_nat (st_nodes (snap_statistics (build_graph b rows)))
                * (of_nat (st_nodes (snap_statistics (build_graph b rows))) - 1))
        else 0)
   \<and> distinct_pairs (snap_links (build_graph b rows))
       \<le> st_edges (snap_statistics (build_graph b rows))
   \<and> (distinct (map edge_pair (snap_links (build_graph b rows))) \<longrightarrow>
        distinct_pairs (snap_links (build_graph b rows))
          = st_edges (snap_statistics (build_graph b rows)))"
proof -
  let ?b = "built b rows"
  note c = built_counts[of b rows]
  have l: "snap_links (build_graph b rows) = edges ?b"
    by (simp add: build_graph_def Let_def)
  have n: "st_nodes (snap_statistics (build_graph b rows)) = length (node_manager ?b)"
    by (simp add: build_graph_def Let_def generate_statistics_def get_node_statistics_def)
  have e: "st_edges (snap_statistics (build_graph b rows)) = length (edges ?b)"
    by (simp add: build_graph_def Let_def generate_statistics_def)
  have d: "st_network_density (snap_statistics (build_graph b rows))
             = (if 0 < number_of_nodes (graph ?b) then density (graph ?b) else 0)"
    by (simp add: build_graph_def Let_def generate_statistics_def)
  have "st_network_density (snap_statistics (build_graph b rows))
     = (if 1 < length (node_manager ?b)
        then 2 * of_nat (distinct_pairs (edges ?b))
             / (of_nat (length (node_manager ?b)) * (of_nat (length (node_manager ?b)) - 1))
        else 0)"
    unfolding d density_def Let_def using c by auto
  then show ?thesis unfolding l n e
    using distinct_pairs_le distinct_pairs_distinct by blast
qed

theorem network_density_formula_witness:
  "distinct (map edge_pair (snap_links (build_graph new_builder [scenario_row])))
   \<and> st_nodes (snap_statistics (build_graph new_builder [scenario_row])) = 4
   \<and> st_edges (snap_statistics (build_graph new_builder [scenario_row])) = 3
   \<and> distinct_pairs (snap_links (build_graph new_builder [scenario_row])) = 3
   \<and> st_network_density (snap_statistics (build_graph new_builder [scenario_row])) = 1 / 2"
proof -
  have d: "distinct (map edge_pair (snap_links (build_graph new_builder [scenario_row])))"
    by code_simp
  have v: "st_nodes (snap_statistics (build_graph new_builder [scenario_row])) = 4
    \<and> st_edges (snap_statistics (build_graph new_builder [scenario_row])) = 3
    \<and> st_network_density (snap_statistics (build_graph new_builder [scenario_row])) = 1 / 2"
    by code_simp
  from network_density_formula[of new_builder "[scenario_row]"] d v
  show ?thesis by simp
qed

text \<open>
  Claim C8 as stated fails when rows repeat a relationship: the scenario row twice gives
  \<open>N = 4\<close> and \<open>E = 6\<close> in the statistics, but a density of \<open>1/2\<close>, not \<open>2 * 6 / (4 * 3) = 1\<close>.
\<close>

theorem network_density_formula_counterexample:
  "st_nodes (snap_statistics (build_graph new_builder [scenario_row, scenario_row])) = 4
   \<and> st_edges (snap_statistics (build_graph new_builder [scenario_row, scenario_row])) = 6
   \<and> st_network_density (snap_statistics (build_graph new_builder [scenario_row, scenario_row]))
       = 1 / 2
   \<and> st_network_density (snap_statistics (build_graph new_builder [scenario_row, scenario_row]))
       \<noteq> 2 * of_nat (st_edges (snap_statistics (build_graph new_builder [scenario_row, scenario_row])))
          / (of_nat (st_nodes (snap_statistics (build_graph new_builder [scenario_row, scenario_row])))
             * (of_nat (st_nodes (snap_statistics (build_graph new_builder [scenario_row, scenario_row]))) - 1))"
proof -
  have "st_nodes (snap_statistics (build_graph new_builder [scenario_row, scenario_row])) = 4
   \<and> st_edges (snap_statistics (build_graph new_builder [scenario_row, scenario_row])) = 6
   \<and> st_network_density (snap_statistics (build_graph new_builder [scenario_row, scenario_row]))
       = 1 / 2"
    by code_simp
  then show ?thesis by simp
qed

text \<open>
  Claim C10: when a row raises partway, the row is counted in \<open>skipped_rows\<close> and the
  builder keeps what the row did before the failure: the registry and the edge list after
  the row are those at the point of failure, every node registered by then is in the
  snapshot of the build, and the edges appended by then are a prefix of its links.
\<close>

theorem partial_row_effects_remain:
  assumes "process_row (build_rows (clear_builder b) pre) r = (b1, Some err)"
  shows "node_manager (build_rows (clear_builder b) (pre @ [r])) = node_manager b1
         \<and> edges (build_rows (clear_builder b) (pre @ [r])) = edges b1
         \<and> skipped_rows (build_rows (clear_builder b) (pre @ [r]))
             = skipped_rows (build_rows (clear_builder b) pre) + 1
         \<and> processed_rows (build_rows (clear_builder b) (pre @ [r]))
             = processed_rows (build_rows (clear_builder b) pre)
         \<and> (\<forall>k n. map_of (node_manager b1) k = Some n \<longrightarrow>
                n \<in> set (snap_nodes (build_graph b (pre @ r # post))))
         \<and> prefix (edges b1) (snap_links (build_graph b (pre @ r # post)))
         \<and> 1 \<le> st_skipped_rows (snap_statistics (build_graph b (pre @ r # post)))"
proof -
  let ?b0 = "build_rows (clear_builder b) pre"
  let ?b2 = "build_rows (clear_builder b) (pre @ [r])"
  have i0: "builder_inv ?b0" by (rule build_rows_inv)
  have c: "processed_rows b1 = processed_rows ?b0 \<and> skipped_rows b1 = skipped_rows ?b0"
    using process_row_step[OF assms i0, of "\<lambda>k n. True"] by simp
  have e: "?b2 = b1\<lparr>skipped_rows := skipped_rows b1 + 1\<rparr>"
    unfolding build_rows_snoc by (rule build_step_error[OF assms])
  have i2: "builder_inv ?b2" by (rule build_rows_inv)
  have f: "build_rows (clear_builder b) (pre @ r # post) = build_rows ?b2 post"
    using build_rows_append[of "clear_builder b" "pre @ [r]" post] by simp
  have keep: "map_of (node_manager b1) k = Some n \<Longrightarrow>
      n \<in> set (snap_nodes (build_graph b (pre @ r # post)))" for k n
  proof -
    assume "map_of (node_manager b1) k = Some n"
    then have "map_of (node_manager ?b2) k = Some n" by (simp add: e)
    with build_rows_keeps[OF i2, of k n post]
    have "map_of (node_manager (build_rows ?b2 post)) k = Some n" by blast
    then show ?thesis unfolding snapshot_fields f by (rule map_of_in_values)
  qed
  have p: "prefix (edges b1) (snap_links (build_graph b (pre @ r # post)))"
    using build_rows_grows[OF i2, of post]
    unfolding snapshot_fields f by (simp add: e)
  have s: "1 \<le> st_skipped_rows (snap_statistics (build_graph b (pre @ r # post)))"
    using build_rows_grows[OF i2, of post]
    unfolding snapshot_fields f by (simp add: e)
  from e c keep p s show ?thesis by simp
qed

theorem partial_row_effects_remain_witness:
  "process_row (build_rows (clear_builder new_builder) []) failing_row
     = (fst (process_row (clear_builder new_builder) failing_row), Some AttributeError)
   \<and> map fst (node_manager (fst (process_row (clear_builder new_builder) failing_row)))
       = [''a.com'', ''b.com'']
   \<and> map (\<lambda>e. (e_source e, e_target e))
         (edges (fst (process_row (clear_builder new_builder) failing_row)))
       = [(''a.com'', ''b.com'')]
   \<and> snd (create_domain_node [] ''b.com'' ''lookalike_domain'' (domain_metadata failing_row ''b.com''))
       \<in> set (snap_nodes (build_graph new_builder ([] @ failing_row # [scenario_row])))
   \<and> prefix (edges (fst (process_row (clear_builder new_builder) failing_row)))
        (snap_links (build_graph new_builder ([] @ failing_row # [scenario_row])))
   \<and> 1 \<le> st_skipped_rows (snap_statistics (build_graph new_builder ([] @ failing_row # [scenario_row])))"
proof -
  let ?b1 = "fst (process_row (clear_builder new_builder) failing_row)"
  have p: "process_row (build_rows (clear_builder new_builder) []) failing_row
             = (?b1, Some AttributeError)"
    using failing_row_partial by (simp add: build_rows_def prod_eq_iff)
  have m: "map_of (node_manager ?b1) ''b.com''
             = Some (snd (create_domain_node [] ''b.com'' ''lookalike_domain''
                            (domain_metadata failing_row ''b.com'')))"
    by code_simp
  note t = partial_row_effects_remain[OF p, of "[scenario_row]"]
  from t m have "snd (create_domain_node [] ''b.com'' ''lookalike_domain''
                        (domain_metadata failing_row ''b.com''))
       \<in> set (snap_nodes (build_graph new_builder ([] @ failing_row # [scenario_row])))"
    by blast
  with t p failing_row_partial show ?thesis by blast
qed

text \<open>
  Claim C9: a crypto entity that a row adds to the registry carries the row's chain value
  (the \<open>chain\<close> cell when the row has that column, \<open>BTC\<close> when it has not); its style key
  is the lowercased chain followed by \<open>_address\<close>; its size, colour, shape and stroke style
  are those that the style table gives for \<open>btc_address\<close>, \<open>eth_address\<close> or
  \<open>tron_address\<close>, and those of the BTC style for every other key; and the entity is in the
  snapshot of the build. (A chain cell that is not a string creates no entity: the row
  raises.)
\<close>

theorem crypto_entity_chain_and_style:
  assumes "map_of (node_manager (build_rows (clear_builder b) pre)) a = None"
    and "map_of (node_manager (build_rows (clear_builder b) (pre @ [r]))) a = Some n"
    and "nd_type n = ''crypto''"
  shows "\<exists>ch. row_get r ''chain'' (Str ''BTC'') = Str ch
           \<and> (map_of r ''chain'' = None \<longrightarrow> ch = ''BTC'')
           \<and> (\<forall>c. map_of r ''chain'' = Some c \<longrightarrow> c = Str ch)
           \<and> nd_id n = a
           \<and> md_chain (nd_metadata n) = ch
           \<and> nd_node_type n = lower ch @ ''_address''
           \<and> nd_size n = ns_size (crypto_style_of ch)
           \<and> nd_color n = ns_color (crypto_style_of ch)
           \<and> nd_shape n = ns_shape (crypto_style_of ch)
           \<and> sm_stroke_color (md_style (nd_metadata n)) = ns_stroke_color (crypto_style_of ch)
           \<and> sm_stroke_width (md_style (nd_metadata n)) = ns_stroke_width (crypto_style_of ch)
           \<and> sm_label_size (md_style (nd_metadata n)) = ns_label_size (crypto_style_of ch)
           \<and> sm_label_color (md_style (nd_metadata n)) = ns_label_color (crypto_style_of ch)
           \<and> sm_opacity (md_style (nd_metadata n)) = ns_opacity (crypto_style_of ch)
           \<and> n \<in> set (snap_nodes (build_graph b (pre @ r # post)))"
proof -
  let ?b0 = "build_rows (clear_builder b) pre"
  let ?b1 = "build_rows (clear_builder b) (pre @ [r])"
  have i0: "builder_inv ?b0" and i1: "builder_inv ?b1" by (rule build_rows_inv)+
  have new: "map_of (node_manager (build_step ?b0 r)) a = Some n"
    using assms(2) by (simp only: build_rows_snoc)
  from new_crypto_entity[OF i0 assms(1) new assms(3)]
  have ent: "crypto_entity_of (row_get r ''chain'' (Str ''BTC'')) n" .
  from crypto_entity_of_Str[OF ent] obtain ch where ch: "row_get r ''chain'' (Str ''BTC'') = Str ch"
    by blast
  have id: "nd_id n = a" by (rule builder_inv_id[OF i1 assms(2)])
  have f: "build_rows (clear_builder b) (pre @ r # post) = build_rows ?b1 post"
    using build_rows_append[of "clear_builder b" "pre @ [r]" post] by simp
  from build_rows_keeps[OF i1, of a n post] assms(2)
  have "map_of (node_manager (build_rows ?b1 post)) a = Some n" by blast
  then have mem: "n \<in> set (snap_nodes (build_graph b (pre @ r # post)))"
    unfolding snapshot_fields f by (rule map_of_in_values)
  have c1: "map_of r ''chain'' = None \<longrightarrow> ch = ''BTC''"
    using row_chain_default[OF ch] by blast
  have c2: "\<forall>c. map_of r ''chain'' = Some c \<longrightarrow> c = Str ch"
    using row_chain_present[OF ch] by blast
  have e2: "crypto_entity_of (Str ch) n" using ent by (simp only: ch)
  note st = crypto_entity_of_fields[OF e2, unfolded style_for_crypto]
  have m1: "sm_stroke_color (md_style (nd_metadata n)) = ns_stroke_color (crypto_style_of ch)"
    and m2: "sm_stroke_width (md_style (nd_metadata n)) = ns_stroke_width (crypto_style_of ch)"
    and m3: "sm_label_size (md_style (nd_metadata n)) = ns_label_size (crypto_style_of ch)"
    and m4: "sm_label_color (md_style (nd_metadata n)) = ns_label_color (crypto_style_of ch)"
    and m5: "sm_opacity (md_style (nd_metadata n)) = ns_opacity (crypto_style_of ch)"
    unfolding st(6) by (simp_all add: style_meta_of_def)
  show ?thesis
    apply (rule exI[of _ ch])
    apply (intro conjI)
    apply (rule ch)
    apply (rule c1)
    apply (rule c2)
    apply (rule id)
    apply (rule st(1))
    apply (rule st(2))
    apply (rule st(3))
    apply (rule st(4))
    apply (rule st(5))
    apply (rule m1)
    apply (rule m2)
    apply (rule m3)
    apply (rule m4)
    apply (rule m5)
    apply (rule mem)
    done
qed

theorem crypto_entity_chain_and_style_witness:
  "map_of (node_manager (build_rows (clear_builder new_builder) [])) ''0xAbC'' = None
   \<and> map_of (node_manager (build_rows (clear_builder new_builder) ([] @ [eth_row]))) ''0xAbC''
       = Some eth_entity
   \<and> nd_type eth_entity = ''crypto''
   \<and> eth_entity \<in> set (snap_nodes (build_graph new_builder ([] @ eth_row # [scenario_row])))
   \<and> crypto_style_of ''Eth''
       = \<lparr>ns_size = 30, ns_color = ''#9b59b6'', ns_stroke_color = ''#8e44ad'',
          ns_stroke_width = 2, ns_shape = ''circle'', ns_label_size = 12,
          ns_label_color = ''#2c3e50'', ns_opacity = 9 / 10\<rparr>
   \<and> map_of no_chain_row ''chain'' = None
   \<and> map_of (node_manager (build_rows (clear_builder new_builder) ([] @ [no_chain_row]))) ''1A2b3C''
       = Some default_chain_entity
   \<and> default_chain_entity \<in> set (snap_nodes (build_graph new_builder ([] @ no_chain_row # [])))
   \<and> map_of (node_manager (build_rows (clear_builder new_builder) ([] @ [doge_row]))) ''D8xyz''
       = Some doge_entity
   \<and> doge_entity \<in> set (snap_nodes (build_graph new_builder ([] @ doge_row # [])))"
proof -
  have e: "map_of (node_manager (build_rows (clear_builder new_builder) ([] @ [eth_row]))) ''0xAbC''
       = Some eth_entity"
    by code_simp
  have n: "map_of (node_manager (build_rows (clear_builder new_builder) ([] @ [no_chain_row]))) ''1A2b3C''
       = Some default_chain_entity"
    by code_simp
  have d: "map_of (node_manager (build_rows (clear_builder new_builder) ([] @ [doge_row]))) ''D8xyz''
       = Some doge_entity"
    by code_simp
  have cs: "crypto_style_of ''Eth''
       = \<lparr>ns_size = 30, ns_color = ''#9b59b6'', ns_stroke_color = ''#8e44ad'',
          ns_stroke_width = 2, ns_shape = ''circle'', ns_label_size = 12,
          ns_label_color = ''#2c3e50'', ns_opacity = 9 / 10\<rparr>"
    by code_simp
  have nc: "map_of no_chain_row ''chain'' = None" by (simp add: no_chain_row_def)
  have te: "nd_type eth_entity = ''crypto''" by (simp add: eth_entity_def)
  have tn: "nd_type default_chain_entity = ''crypto''" by (simp add: default_chain_entity_def)
  have td: "nd_type doge_entity = ''crypto''" by (simp add: doge_entity_def)
  from crypto_entity_chain_and_style[OF fresh_build e te, of "[scenario_row]"]
  have 1: "eth_entity \<in> set (snap_nodes (build_graph new_builder ([] @ eth_row # [scenario_row])))"
    by blast
  from crypto_entity_chain_and_style[OF fresh_build n tn, of "[]"]
  have 2: "default_chain_entity \<in> set (snap_nodes (build_graph new_builder ([] @ no_chain_row # [])))"
    by blast
  from crypto_entity_chain_and_style[OF fresh_build d td, of "[]"]
  have 3: "doge_entity \<in> set (snap_nodes (build_graph new_builder ([] @ doge_row # [])))"
    by blast
  show ?thesis
    by (intro conjI) (rule fresh_build e te 1 cs nc n 2 d 3)+
qed




end
